theory Spec2Isabelle
  imports Main "HOL-Library.Word"
begin

unbundle bit_operations_syntax

section \<open>The operating system as seen by tuntap.cc\<close>

text \<open>
  The addon talks to the kernel through system calls and to libuv and N-API through
  library calls. A call either succeeds with a non-negative result (and leaves
  \<open>errno\<close> alone) or returns \<open>-1\<close> and stores an error number in \<open>errno\<close>.
  The answers of the kernel are not fixed by the source, so every operation takes them
  as a parameter: a record of what each call would answer. Every statement below holds
  for all such answers unless it names the ones it needs.
\<close>

type_synonym byte = "8 word"

datatype platform = Apple | Linux

datatype 'a sysres = Ok 'a | Fail int

datatype event =
    SysSocket
  | SysCtlInfo int
  | SysConnect int nat
  | SysGetIfName int
  | SysStat
  | SysOpenTun
  | SysTunSetIff int string
  | SysGetFl int
  | SysSetFl int nat
  | SysClose int
  | SysRead int nat
  | SysWrite int "byte list"
  | Stderr string
  | BlockingCall "nat option" "byte list"

record kernel =
  k_socket :: "nat sysres"
  k_ctl_info :: "nat sysres"
  k_connect :: "nat \<Rightarrow> unit sysres"
  k_ifname :: "nat \<Rightarrow> string sysres"
  k_stat :: "unit sysres"
  k_open :: "nat sysres"
  k_tunsetiff :: "string \<Rightarrow> string sysres"
  k_getfl :: "nat sysres"
  k_setfl :: "nat \<Rightarrow> unit sysres"
  k_close :: "int \<Rightarrow> unit sysres"
  k_read :: "nat \<Rightarrow> byte list sysres"
  k_write :: "byte list \<Rightarrow> nat sysres"
  uv_poll_init :: int
  uv_poll_start :: int
  strerror :: "int \<Rightarrow> string"
  uv_strerror :: "int \<Rightarrow> string"
  uv_errno :: "int \<Rightarrow> int"

text \<open>
  The process-wide state: the three globals of the source (\<open>g_shutdown_requested\<close>,
  \<open>g_active_devices\<close>; the mutex is not modelled), the thread's \<open>errno\<close>, the
  log of calls made so far, and the libuv poll handles and thread-safe functions that
  are allocated and not yet released.
\<close>

record process =
  g_shutdown_requested :: bool
  g_active_devices :: "nat list"
  errno :: int
  trace :: "event list"
  next_id :: nat
  live_polls :: "nat list"
  active_polls :: "nat list"
  live_tsfns :: "nat list"

definition EBUSY :: int where
  "EBUSY = 16"

fun EAGAIN :: "platform \<Rightarrow> int" where
  "EAGAIN Apple = 35"
| "EAGAIN Linux = 11"

fun EWOULDBLOCK :: "platform \<Rightarrow> int" where
  "EWOULDBLOCK pf = EAGAIN pf"

fun O_NONBLOCK :: "platform \<Rightarrow> nat" where
  "O_NONBLOCK Apple = 4"
| "O_NONBLOCK Linux = 2048"

definition AF_INET6 :: "32 word" where
  "AF_INET6 = 30"

definition UV_READABLE :: int where
  "UV_READABLE = 1"

definition syscall :: "event \<Rightarrow> 'a sysres \<Rightarrow> process \<Rightarrow> 'a sysres \<times> process" where
  "syscall ev r p =
     (r, p\<lparr>errno := (case r of Ok _ \<Rightarrow> errno p | Fail e \<Rightarrow> e), trace := trace p @ [ev]\<rparr>)"

definition log_stderr :: "string \<Rightarrow> process \<Rightarrow> process" where
  "log_stderr s p = p\<lparr>trace := trace p @ [Stderr s]\<rparr>"

text \<open>A C string ends at its first NUL byte.\<close>

definition c_str :: "string \<Rightarrow> string" where
  "c_str s = takeWhile (\<lambda>c. c \<noteq> CHR 0x00) s"

section \<open>FileDescriptor\<close>

text \<open>
  The RAII wrapper holds one \<open>int\<close>; a negative value means that no descriptor is
  held. The wrapper is modelled by that integer, and each member function that may call
  \<open>::close\<close> returns the process with the call logged.
\<close>

definition is_valid :: "int \<Rightarrow> bool" where
  "is_valid fd_v = (fd_v \<ge> 0)"

definition sys_close :: "kernel \<Rightarrow> int \<Rightarrow> process \<Rightarrow> process" where
  "sys_close k fd_v p = snd (syscall (SysClose fd_v) (k_close k fd_v) p)"

definition FileDescriptor_dtor :: "kernel \<Rightarrow> int \<Rightarrow> process \<Rightarrow> process" where
  "FileDescriptor_dtor k fd_v p = (if fd_v \<ge> 0 then sys_close k fd_v p else p)"

definition FileDescriptor_reset :: "kernel \<Rightarrow> int \<Rightarrow> int \<Rightarrow> process \<Rightarrow> int \<times> process" where
  "FileDescriptor_reset k fd_v new_fd p = (new_fd, if fd_v \<ge> 0 then sys_close k fd_v p else p)"

text \<open>
  Move assignment \<open>fd_ = std::move(temp_fd)\<close>: the target closes what it holds, takes
  the source's descriptor, and the source is left with \<open>-1\<close> (so the destructor of
  the temporary closes nothing).
\<close>

definition FileDescriptor_move_assign ::
    "kernel \<Rightarrow> int \<Rightarrow> int \<Rightarrow> process \<Rightarrow> (int \<times> int) \<times> process" where
  "FileDescriptor_move_assign k fd_v other p =
     ((other, -1), if fd_v \<ge> 0 then sys_close k fd_v p else p)"

section \<open>TunDevice\<close>

text \<open>
  The members of the class, without the trailing underscore of the source
  (\<open>fd_\<close>, \<open>name_\<close>, \<open>is_open_\<close>, \<open>poll_handle_\<close>, \<open>tsfn_\<close>): Isabelle
  keeps such names for itself. A null \<open>poll_handle_\<close> and an empty \<open>tsfn_\<close> are
  \<open>None\<close>.
\<close>

record TunDevice =
  fd :: int
  name :: string
  is_open :: bool
  poll_handle :: "nat option"
  tsfn :: "nat option"

datatype js_exception = Error string | TypeError string

text \<open>The constructor: the name is taken from the first argument when it is a string.\<close>

definition TunDevice_new :: "string option \<Rightarrow> TunDevice" where
  "TunDevice_new arg =
     \<lparr>fd = -1, name = (case arg of Some s \<Rightarrow> s | None \<Rightarrow> []), is_open = False,
      poll_handle = None, tsfn = None\<rparr>"

definition throw_errno :: "kernel \<Rightarrow> string \<Rightarrow> process \<Rightarrow> js_exception" where
  "throw_errno k msg p = Error (msg @ strerror k (errno p))"

subsection \<open>The device registry\<close>

definition RegisterDevice :: "nat \<Rightarrow> process \<Rightarrow> process" where
  "RegisterDevice this p = p\<lparr>g_active_devices := g_active_devices p @ [this]\<rparr>"

definition UnregisterDevice :: "nat \<Rightarrow> process \<Rightarrow> process" where
  "UnregisterDevice this p =
     p\<lparr>g_active_devices := filter (\<lambda>x. x \<noteq> this) (g_active_devices p)\<rparr>"

subsection \<open>StopPolling and CloseInternal\<close>

definition StopPolling :: "TunDevice \<Rightarrow> process \<Rightarrow> TunDevice \<times> process" where
  "StopPolling d p =
     (let (d1, p1) =
            (case poll_handle d of
               Some h \<Rightarrow>
                 (d\<lparr>poll_handle := None\<rparr>,
                  p\<lparr>active_polls := removeAll h (active_polls p),
                    live_polls := removeAll h (live_polls p)\<rparr>)
             | None \<Rightarrow> (d, p))
      in (case tsfn d1 of
            Some t \<Rightarrow> (d1\<lparr>tsfn := None\<rparr>, p1\<lparr>live_tsfns := removeAll t (live_tsfns p1)\<rparr>)
          | None \<Rightarrow> (d1, p1)))"

definition CloseInternal :: "kernel \<Rightarrow> TunDevice \<Rightarrow> process \<Rightarrow> TunDevice \<times> process" where
  "CloseInternal k d p =
     (if is_open d then
        (let (d1, p1) = StopPolling (d\<lparr>is_open := False\<rparr>) p;
             (fd1, p2) = FileDescriptor_reset k (fd d1) (-1) p1
         in (d1\<lparr>fd := fd1\<rparr>, p2))
      else (d, p))"

definition Close :: "kernel \<Rightarrow> TunDevice \<Rightarrow> process \<Rightarrow> bool \<times> TunDevice \<times> process" where
  "Close k d p = (let (d1, p1) = CloseInternal k d p in (True, d1, p1))"

text \<open>
  The destructor runs \<open>CloseInternal\<close> and then the destructors of the members, of
  which \<open>~FileDescriptor\<close> may call \<open>::close\<close>. The object is gone afterwards, so
  only the process is returned.
\<close>

definition TunDevice_dtor :: "kernel \<Rightarrow> TunDevice \<Rightarrow> process \<Rightarrow> process" where
  "TunDevice_dtor k d p = (let (d1, p1) = CloseInternal k d p in FileDescriptor_dtor k (fd d1) p1)"

subsection \<open>Open on macOS: utun control sockets\<close>

text \<open>
  \<open>std::stoi\<close> skips leading white space, reads an optional sign and then decimal
  digits; it throws when there is no digit or when the number does not fit an
  \<open>int\<close>. \<open>None\<close> is the thrown exception, which the source catches.
\<close>

definition isspace_c :: "char \<Rightarrow> bool" where
  "isspace_c c = (c \<in> set [CHR '' '', CHR 0x09, CHR 0x0A, CHR 0x0B, CHR 0x0C, CHR 0x0D])"

definition isdigit_c :: "char \<Rightarrow> bool" where
  "isdigit_c c = (c \<in> set ''0123456789'')"

definition decimal :: "string \<Rightarrow> int" where
  "decimal ds = foldl (\<lambda>a c. 10 * a + (of_char c - 48)) 0 ds"

definition stoi :: "string \<Rightarrow> int option" where
  "stoi s =
     (let s1 = dropWhile isspace_c s;
          neg = (s1 \<noteq> [] \<and> hd s1 = CHR ''-'');
          s2 = (if s1 \<noteq> [] \<and> (hd s1 = CHR ''-'' \<or> hd s1 = CHR ''+'') then tl s1 else s1);
          ds = takeWhile isdigit_c s2;
          v = (if neg then - decimal ds else decimal ds)
      in if ds = [] then None
         else if v < - 2147483648 \<or> 2147483647 < v then None
         else Some v)"

text \<open>
  The unit requested by the name: \<open>utunN\<close> asks for unit \<open>N + 1\<close>, anything else
  for none (\<open>0\<close>). The addition is the source's \<open>int\<close> addition; at \<open>INT_MAX\<close>
  it is written here as the wrap-around of a 32-bit machine.
\<close>

definition utun_unit :: "string \<Rightarrow> int" where
  "utun_unit nm =
     (if nm \<noteq> [] \<and> take 4 nm = ''utun'' then
        (case stoi (drop 4 nm) of
           Some v \<Rightarrow> sint (word_of_int v + 1 :: 32 word)
         | None \<Rightarrow> 0)
      else 0)"

datatype scan_result = Connected nat | ConnectError | NoFreeUnit

text \<open>
  The loop \<open>for (sc.sc_unit = 1; sc.sc_unit < 255; sc.sc_unit++)\<close>, entered at
  unit \<open>u\<close>.
\<close>

function scan_units :: "kernel \<Rightarrow> int \<Rightarrow> nat \<Rightarrow> process \<Rightarrow> scan_result \<times> process" where
  "scan_units k fd_v u p =
     (if u < 255 then
        (case syscall (SysConnect fd_v u) (k_connect k u) p of
           (Ok _, p1) \<Rightarrow> (Connected u, p1)
         | (Fail e, p1) \<Rightarrow>
             if errno p1 \<noteq> EBUSY then (ConnectError, p1)
             else scan_units k fd_v (Suc u) p1)
      else (NoFreeUnit, p))"
  by pat_completeness auto
termination
  by (relation "measure (\<lambda>(k, fd_v, u, p). 255 - u)") auto

declare scan_units.simps [simp del]

text \<open>Connecting the control socket: to the requested unit, or to the first free one.\<close>

definition connect_utun :: "kernel \<Rightarrow> int \<Rightarrow> int \<Rightarrow> process \<Rightarrow> (js_exception + nat) \<times> process" where
  "connect_utun k fd_v unit_req p =
     (if unit_req > 0 then
        (case syscall (SysConnect fd_v (nat unit_req)) (k_connect k (nat unit_req)) p of
           (Fail e, p1) \<Rightarrow>
             (Inl (throw_errno k
                ''Failed to connect to utun control socket with specified unit: '' p1), p1)
         | (Ok _, p1) \<Rightarrow> (Inr (nat unit_req), p1))
      else
        (case scan_units k fd_v 1 p of
           (Connected u, p1) \<Rightarrow> (Inr u, p1)
         | (ConnectError, p1) \<Rightarrow>
             (Inl (throw_errno k ''Failed to connect to utun control socket: '' p1), p1)
         | (NoFreeUnit, p1) \<Rightarrow>
             (Inl (Error ''Could not find an available utun device''), p1)))"

text \<open>
  The platform part of \<open>Open\<close> returns the temporary descriptor, or the exception
  thrown; in the second case the destructor of \<open>temp_fd\<close> has run.
\<close>

definition Open_apple ::
    "kernel \<Rightarrow> TunDevice \<Rightarrow> process \<Rightarrow> (js_exception + int) \<times> TunDevice \<times> process" where
  "Open_apple k d p =
     (case syscall SysSocket (k_socket k) p of
        (Fail e, p1) \<Rightarrow>
          (Inl (throw_errno k ''Failed to create control socket: '' p1), d, p1)
      | (Ok s, p1) \<Rightarrow>
          (let temp_fd = int s in
           case syscall (SysCtlInfo temp_fd) (k_ctl_info k) p1 of
             (Fail e, p2) \<Rightarrow>
               (Inl (throw_errno k ''Failed to get utun control info: '' p2), d,
                FileDescriptor_dtor k temp_fd p2)
           | (Ok ctl_id, p2) \<Rightarrow>
               (case connect_utun k temp_fd (utun_unit (name d)) p2 of
                  (Inl ex, p3) \<Rightarrow> (Inl ex, d, FileDescriptor_dtor k temp_fd p3)
                | (Inr u, p3) \<Rightarrow>
                    (case syscall (SysGetIfName temp_fd) (k_ifname k u) p3 of
                       (Fail e, p4) \<Rightarrow>
                         (Inl (throw_errno k ''Failed to get utun interface name: '' p4), d,
                          FileDescriptor_dtor k temp_fd p4)
                     | (Ok utunname, p4) \<Rightarrow>
                         (Inr temp_fd, d\<lparr>name := c_str utunname\<rparr>, p4)))))"

subsection \<open>Open on Linux: /dev/net/tun\<close>

definition IFNAMSIZ :: nat where
  "IFNAMSIZ = 16"

definition Open_linux ::
    "kernel \<Rightarrow> TunDevice \<Rightarrow> process \<Rightarrow> (js_exception + int) \<times> TunDevice \<times> process" where
  "Open_linux k d p =
     (case syscall SysStat (k_stat k) p of
        (Fail e, p1) \<Rightarrow>
          (Inl (Error (''TUN/TAP device not available: /dev/net/tun does not exist. '' @
                  ''Please ensure the TUN/TAP kernel module is loaded (modprobe tun).'')),
           d, p1)
      | (Ok _, p1) \<Rightarrow>
          (case syscall SysOpenTun (k_open k) p1 of
             (Fail e, p2) \<Rightarrow>
               (Inl (Error (''Failed to open /dev/net/tun: '' @ strerror k (errno p2) @
                       ''. This usually means you don't have sufficient permissions. '' @
                       ''Try running with sudo or add your user to the 'tun' group.'')),
                d, p2)
           | (Ok f, p2) \<Rightarrow>
               (let temp_fd = int f;
                    ifr_name = (if name d \<noteq> [] then take (IFNAMSIZ - 1) (c_str (name d)) else [])
                in case syscall (SysTunSetIff temp_fd ifr_name) (k_tunsetiff k ifr_name) p2 of
                     (Fail e, p3) \<Rightarrow>
                       (Inl (throw_errno k ''Failed to configure TUN device: '' p3), d,
                        FileDescriptor_dtor k temp_fd p3)
                   | (Ok ifr_name1, p3) \<Rightarrow>
                       (Inr temp_fd, d\<lparr>name := c_str ifr_name1\<rparr>, p3))))"

subsection \<open>Open: the common part\<close>

text \<open>Non-blocking mode, then the transfer of the descriptor to the member.\<close>

definition Open_finish ::
    "platform \<Rightarrow> kernel \<Rightarrow> int \<Rightarrow> TunDevice \<Rightarrow> process
      \<Rightarrow> (js_exception + bool) \<times> TunDevice \<times> process" where
  "Open_finish pf k temp_fd d p =
     (case syscall (SysGetFl temp_fd) (k_getfl k) p of
        (Fail e, p1) \<Rightarrow>
          (Inl (throw_errno k ''Failed to get file descriptor flags: '' p1), d,
           FileDescriptor_dtor k temp_fd p1)
      | (Ok flags, p1) \<Rightarrow>
          (case syscall (SysSetFl temp_fd (flags OR O_NONBLOCK pf))
                  (k_setfl k (flags OR O_NONBLOCK pf)) p1 of
             (Fail e, p2) \<Rightarrow>
               (Inl (throw_errno k ''Failed to set non-blocking mode: '' p2), d,
                FileDescriptor_dtor k temp_fd p2)
           | (Ok _, p2) \<Rightarrow>
               (case FileDescriptor_move_assign k (fd d) temp_fd p2 of
                  ((fd1, temp1), p3) \<Rightarrow>
                    (Inr True, d\<lparr>fd := fd1, is_open := True\<rparr>,
                     FileDescriptor_dtor k temp1 p3))))"

definition Open ::
    "platform \<Rightarrow> kernel \<Rightarrow> TunDevice \<Rightarrow> process
      \<Rightarrow> (js_exception + bool) \<times> TunDevice \<times> process" where
  "Open pf k d p =
     (if is_open d then (Inr True, d, p)
      else if g_shutdown_requested p then (Inl (Error ''Shutdown in progress''), d, p)
      else
        (case (case pf of Apple \<Rightarrow> Open_apple k d p | Linux \<Rightarrow> Open_linux k d p) of
           (Inl ex, d1, p1) \<Rightarrow> (Inl ex, d1, p1)
         | (Inr temp_fd, d1, p1) \<Rightarrow> Open_finish pf k temp_fd d1 p1))"

subsection \<open>Read and Write\<close>

text \<open>
  \<open>read(fd, buf, count)\<close> stores at most \<open>count\<close> bytes. \<open>bytes_read\<close> is the
  value the call returns and \<open>buffer_after\<close> the zero-initialised buffer of
  \<open>count\<close> bytes after the call.
\<close>

definition sys_read :: "kernel \<Rightarrow> int \<Rightarrow> nat \<Rightarrow> process \<Rightarrow> byte list sysres \<times> process" where
  "sys_read k fd_v count p =
     (case syscall (SysRead fd_v count) (k_read k count) p of
        (Ok bs, p1) \<Rightarrow> (Ok (take count bs), p1)
      | (Fail e, p1) \<Rightarrow> (Fail e, p1))"

definition bytes_read :: "byte list sysres \<Rightarrow> int" where
  "bytes_read r = (case r of Ok bs \<Rightarrow> int (length bs) | Fail e \<Rightarrow> - 1)"

definition buffer_after :: "nat \<Rightarrow> byte list sysres \<Rightarrow> byte list" where
  "buffer_after count r =
     (case r of
        Ok bs \<Rightarrow> bs @ replicate (count - length bs) 0
      | Fail e \<Rightarrow> replicate count 0)"

definition Read_apple ::
    "kernel \<Rightarrow> nat \<Rightarrow> TunDevice \<Rightarrow> process \<Rightarrow> (js_exception + byte list) \<times> process" where
  "Read_apple k buffer_size d p =
     (case sys_read k (fd d) (buffer_size + 4) p of
        (r, p1) \<Rightarrow>
          (let tmp_buffer = buffer_after (buffer_size + 4) r in
           if bytes_read r \<le> 0 then
             (if errno p1 = EAGAIN Apple \<or> errno p1 = EWOULDBLOCK Apple then (Inr [], p1)
              else (Inl (throw_errno k ''Read error: '' p1), p1))
           else if bytes_read r > 4 then
             (Inr (take (nat (bytes_read r - 4)) (drop 4 tmp_buffer)), p1)
           else (Inr [], p1)))"

definition Read_linux ::
    "kernel \<Rightarrow> nat \<Rightarrow> TunDevice \<Rightarrow> process \<Rightarrow> (js_exception + byte list) \<times> process" where
  "Read_linux k buffer_size d p =
     (case sys_read k (fd d) buffer_size p of
        (r, p1) \<Rightarrow>
          (let data = buffer_after buffer_size r in
           if bytes_read r < 0 then
             (if errno p1 = EAGAIN Linux \<or> errno p1 = EWOULDBLOCK Linux then (Inr [], p1)
              else (Inl (throw_errno k ''Read error: '' p1), p1))
           else (Inr (take (nat (bytes_read r)) data), p1)))"

text \<open>
  The argument of \<open>read\<close> is the requested length when it is a number (read as an
  unsigned 32-bit value) and absent otherwise; the default is 4096.
\<close>

definition buffer_size_of :: "nat option \<Rightarrow> nat" where
  "buffer_size_of arg = (case arg of Some n \<Rightarrow> n mod 2 ^ 32 | None \<Rightarrow> 4096)"

definition Read ::
    "platform \<Rightarrow> kernel \<Rightarrow> nat option \<Rightarrow> TunDevice \<Rightarrow> process
      \<Rightarrow> (js_exception + byte list) \<times> process" where
  "Read pf k arg d p =
     (if \<not> is_open d \<or> \<not> is_valid (fd d) then (Inl (Error ''Device not open''), p)
      else if g_shutdown_requested p then (Inr [], p)
      else
        (let buffer_size = buffer_size_of arg in
         case pf of
           Apple \<Rightarrow> Read_apple k buffer_size d p
         | Linux \<Rightarrow> Read_linux k buffer_size d p))"

text \<open>The four bytes that \<open>memcpy\<close> takes from \<open>htonl(x)\<close>: \<open>x\<close> in network order.\<close>

definition htonl_bytes :: "32 word \<Rightarrow> byte list" where
  "htonl_bytes x = [ucast (drop_bit 24 x), ucast (drop_bit 16 x), ucast (drop_bit 8 x), ucast x]"

definition Write_apple ::
    "kernel \<Rightarrow> byte list \<Rightarrow> TunDevice \<Rightarrow> process \<Rightarrow> (js_exception + int) \<times> process" where
  "Write_apple k data d p =
     (let tmp_buffer = htonl_bytes AF_INET6 @ data in
      case syscall (SysWrite (fd d) (take (length data + 4) tmp_buffer))
             (k_write k (take (length data + 4) tmp_buffer)) p of
        (Fail e, p1) \<Rightarrow> (Inl (throw_errno k ''Write error: '' p1), p1)
      | (Ok n, p1) \<Rightarrow> (Inr (if int n > 4 then int n - 4 else 0), p1))"

definition Write_linux ::
    "kernel \<Rightarrow> byte list \<Rightarrow> TunDevice \<Rightarrow> process \<Rightarrow> (js_exception + int) \<times> process" where
  "Write_linux k data d p =
     (case syscall (SysWrite (fd d) (take (length data) data)) (k_write k (take (length data) data)) p of
        (Fail e, p1) \<Rightarrow> (Inl (throw_errno k ''Write error: '' p1), p1)
      | (Ok n, p1) \<Rightarrow> (Inr (int n), p1))"

text \<open>The argument of \<open>write\<close> is the payload when it is a buffer, absent otherwise.\<close>

definition Write ::
    "platform \<Rightarrow> kernel \<Rightarrow> byte list option \<Rightarrow> TunDevice \<Rightarrow> process
      \<Rightarrow> (js_exception + int) \<times> process" where
  "Write pf k arg d p =
     (if \<not> is_open d \<or> \<not> is_valid (fd d) then (Inl (Error ''Device not open''), p)
      else if g_shutdown_requested p then (Inl (Error ''Shutdown in progress''), p)
      else
        (case arg of
           None \<Rightarrow> (Inl (TypeError ''Expected buffer as first argument''), p)
         | Some data \<Rightarrow>
             (case pf of
                Apple \<Rightarrow> Write_apple k data d p
              | Linux \<Rightarrow> Write_linux k data d p)))"

definition GetName :: "TunDevice \<Rightarrow> string" where
  "GetName d = name d"

definition GetFd :: "TunDevice \<Rightarrow> int" where
  "GetFd d = fd d"

subsection \<open>StartPolling and PollCallback\<close>

text \<open>
  A new thread-safe function and a new \<open>uv_poll_t\<close> get the next free identifier.
  The callback argument is the function's identity when it is a function. When
  \<open>uv_poll_init\<close> or \<open>uv_poll_start\<close> fails, the \<open>unique_ptr\<close> frees the
  handle. The libuv and N-API calls may overwrite \<open>errno\<close>: \<open>uv_errno k\<close> gives
  its value after them from its value before.
\<close>

definition StartPolling ::
    "kernel \<Rightarrow> nat option \<Rightarrow> TunDevice \<Rightarrow> process
      \<Rightarrow> (js_exception + unit) \<times> TunDevice \<times> process" where
  "StartPolling k cb d p =
     (if \<not> is_open d \<or> \<not> is_valid (fd d) then (Inl (Error ''Device not open''), d, p)
      else
        (case cb of
           None \<Rightarrow> (Inl (TypeError ''Expected function as first argument''), d, p)
         | Some f \<Rightarrow>
             (let (d1, p1) = StopPolling d p;
                  t = next_id p1;
                  p2 = p1\<lparr>next_id := Suc t, live_tsfns := live_tsfns p1 @ [t]\<rparr>;
                  d2 = d1\<lparr>tsfn := Some t\<rparr>;
                  h = next_id p2;
                  p3 = p2\<lparr>next_id := Suc h, live_polls := live_polls p2 @ [h],
                         errno := uv_errno k (errno p2)\<rparr>
              in if uv_poll_init k \<noteq> 0 then
                   (Inl (Error ''Failed to initialize poll handle''), d2,
                    p3\<lparr>live_polls := removeAll h (live_polls p3)\<rparr>)
                 else if uv_poll_start k \<noteq> 0 then
                   (Inl (Error ''Failed to start polling''), d2,
                    p3\<lparr>live_polls := removeAll h (live_polls p3)\<rparr>)
                 else
                   (Inr (), d2\<lparr>poll_handle := Some h\<rparr>,
                    p3\<lparr>active_polls := active_polls p3 @ [h]\<rparr>))))"

text \<open>
  \<open>PollCallback\<close> for the device stored in \<open>handle->data\<close>. A delivery is the
  \<open>BlockingCall\<close> on the device's thread-safe function, logged with the bytes handed
  to the JavaScript callback.
\<close>

definition PollCallback ::
    "platform \<Rightarrow> kernel \<Rightarrow> int \<Rightarrow> int \<Rightarrow> TunDevice \<Rightarrow> process \<Rightarrow> process" where
  "PollCallback pf k status events d p =
     (if status < 0 then
        log_stderr (''tuntap poll error: '' @ uv_strerror k status @ [CHR 0x0A]) p
      else if events AND UV_READABLE = 0 then p
      else if \<not> is_open d \<or> \<not> is_valid (fd d) then p
      else
        (case sys_read k (fd d) 4096 p of
           (r, p1) \<Rightarrow>
             (let buffer = buffer_after 4096 r in
              if bytes_read r \<le> 0 then
                (if errno p1 \<noteq> EAGAIN pf \<and> errno p1 \<noteq> EWOULDBLOCK pf then
                   log_stderr (''tuntap read error: '' @ strerror k (errno p1) @ [CHR 0x0A]) p1
                 else p1)
              else
                (case pf of
                   Apple \<Rightarrow>
                     if bytes_read r > 4 then
                       p1\<lparr>trace := trace p1 @
                          [BlockingCall (tsfn d) (take (nat (bytes_read r - 4)) (drop 4 buffer))]\<rparr>
                     else p1
                 | Linux \<Rightarrow>
                     p1\<lparr>trace := trace p1 @
                        [BlockingCall (tsfn d) (take (nat (bytes_read r)) buffer)]\<rparr>))))"

section \<open>Sequences of calls\<close>

text \<open>
  A call of one of the JavaScript methods, or a readiness event of the loop, with the
  answers the kernel gives during it. \<open>exec\<close> keeps the states and drops the value
  returned to JavaScript.
\<close>

datatype call =
    CallOpen kernel
  | CallClose kernel
  | CallRead kernel "nat option"
  | CallWrite kernel "byte list option"
  | CallGetName
  | CallGetFd
  | CallStartPolling kernel "nat option"
  | CallPoll kernel int int

fun exec :: "platform \<Rightarrow> call \<Rightarrow> TunDevice \<times> process \<Rightarrow> TunDevice \<times> process" where
  "exec pf (CallOpen k) (d, p) = snd (Open pf k d p)"
| "exec pf (CallClose k) (d, p) = snd (Close k d p)"
| "exec pf (CallRead k arg) (d, p) = (d, snd (Read pf k arg d p))"
| "exec pf (CallWrite k arg) (d, p) = (d, snd (Write pf k arg d p))"
| "exec pf CallGetName (d, p) = (d, p)"
| "exec pf CallGetFd (d, p) = (d, p)"
| "exec pf (CallStartPolling k cb) (d, p) = snd (StartPolling k cb d p)"
| "exec pf (CallPoll k status events) (d, p) = (d, PollCallback pf k status events d p)"

definition run :: "platform \<Rightarrow> call list \<Rightarrow> TunDevice \<times> process \<Rightarrow> TunDevice \<times> process" where
  "run pf cs s = fold (exec pf) cs s"

fun is_close :: "call \<Rightarrow> bool" where
  "is_close (CallClose k) = True"
| "is_close c = False"

text \<open>
  Several devices in one process: a device is found by its address, and a call on an
  address that holds no device does nothing.
\<close>

fun exec_at ::
    "platform \<Rightarrow> nat \<times> call \<Rightarrow> (nat \<rightharpoonup> TunDevice) \<times> process
      \<Rightarrow> (nat \<rightharpoonup> TunDevice) \<times> process" where
  "exec_at pf (this, c) (ds, p) =
     (case ds this of
        None \<Rightarrow> (ds, p)
      | Some d \<Rightarrow> (case exec pf c (d, p) of (d1, p1) \<Rightarrow> (ds(this \<mapsto> d1), p1)))"

definition run_at ::
    "platform \<Rightarrow> (nat \<times> call) list \<Rightarrow> (nat \<rightharpoonup> TunDevice) \<times> process
      \<Rightarrow> (nat \<rightharpoonup> TunDevice) \<times> process" where
  "run_at pf cs s = fold (exec_at pf) cs s"

definition is_open_at :: "(nat \<rightharpoonup> TunDevice) \<Rightarrow> nat \<Rightarrow> bool" where
  "is_open_at ds this = (case ds this of Some d \<Rightarrow> is_open d | None \<Rightarrow> False)"

text \<open>The process at start: nothing requested, registered, logged or allocated.\<close>

definition process_start :: process where
  "process_start =
     \<lparr>g_shutdown_requested = False, g_active_devices = [], errno = 0, trace = [],
      next_id = 0, live_polls = [], active_polls = [], live_tsfns = []\<rparr>"

section \<open>Invariants and observations\<close>

text \<open>
  What the constructor establishes and every member function keeps: an open device
  holds a descriptor; a closed one holds none, no poll handle and no thread-safe
  function.
\<close>

definition dev_inv :: "TunDevice \<Rightarrow> bool" where
  "dev_inv d =
     (if is_open d then 0 \<le> fd d
      else fd d = - 1 \<and> poll_handle d = None \<and> tsfn d = None)"

fun opt_list :: "'a option \<Rightarrow> 'a list" where
  "opt_list None = []"
| "opt_list (Some x) = [x]"

text \<open>
  For a process with one device: the poll handles and thread-safe functions that are
  allocated are the ones the device holds, and their identifiers are used up.
\<close>

definition res_inv :: "TunDevice \<Rightarrow> process \<Rightarrow> bool" where
  "res_inv d p =
     (live_polls p = opt_list (poll_handle d) \<and>
      active_polls p = opt_list (poll_handle d) \<and>
      live_tsfns p = opt_list (tsfn d) \<and>
      list_all (\<lambda>x. x < next_id p) (opt_list (poll_handle d) @ opt_list (tsfn d)))"

text \<open>The units of the \<open>connect\<close> calls and the descriptors of the \<open>::close\<close> calls of a log.\<close>

fun connect_units :: "event list \<Rightarrow> nat list" where
  "connect_units [] = []"
| "connect_units (SysConnect f u # es) = u # connect_units es"
| "connect_units (e # es) = connect_units es"

fun closed_fds :: "event list \<Rightarrow> int list" where
  "closed_fds [] = []"
| "closed_fds (SysClose f # es) = f # closed_fds es"
| "closed_fds (e # es) = closed_fds es"

text \<open>
  The kernel's side of the naming contract: an interface that was created has a name.
  The source adopts the name it is given and does not look at it.
\<close>

definition kernel_names_ok :: "kernel \<Rightarrow> bool" where
  "kernel_names_ok k =
     ((\<forall>u s. k_ifname k u = Ok s \<longrightarrow> c_str s \<noteq> []) \<and>
      (\<forall>n s. k_tunsetiff k n = Ok s \<longrightarrow> c_str s \<noteq> []))"

fun call_names_ok :: "call \<Rightarrow> bool" where
  "call_names_ok (CallOpen k) = kernel_names_ok k"
| "call_names_ok c = True"

text \<open>
  \<open>only_syscalls p p1\<close>: the process \<open>p1\<close> differs from \<open>p\<close> at most in
  \<open>errno\<close> and in the log of calls.
\<close>

definition only_syscalls :: "process \<Rightarrow> process \<Rightarrow> bool" where
  "only_syscalls p p1 =
     (g_shutdown_requested p1 = g_shutdown_requested p \<and>
      g_active_devices p1 = g_active_devices p \<and>
      next_id p1 = next_id p \<and>
      live_polls p1 = live_polls p \<and>
      active_polls p1 = active_polls p \<and>
      live_tsfns p1 = live_tsfns p)"

section \<open>Sample kernels and devices\<close>

text \<open>
  A kernel on which everything succeeds: utun units 1 and 2 are busy and unit 3 is
  free, the interface is named \<open>utun2\<close> (macOS) or \<open>tun0\<close> (Linux), reads find
  a 4-byte header and three payload bytes, writes take everything.
\<close>

definition strerror_sample :: "int \<Rightarrow> string" where
  "strerror_sample e =
     (if e = 9 then ''Bad file descriptor''
      else if e = 16 then ''Resource busy''
      else if e = 0 then ''Undefined error: 0''
      else ''Unknown error'')"

definition kernel_sample :: kernel where
  "kernel_sample =
     \<lparr>k_socket = Ok 5, k_ctl_info = Ok 1,
      k_connect = (\<lambda>u. if u < 3 then Fail 16 else Ok ()),
      k_ifname = (\<lambda>u. Ok ''utun2''),
      k_stat = Ok (), k_open = Ok 5,
      k_tunsetiff = (\<lambda>n. Ok ''tun0''),
      k_getfl = Ok 2, k_setfl = (\<lambda>f. Ok ()), k_close = (\<lambda>f. Ok ()),
      k_read = (\<lambda>n. Ok [0, 0, 0, 30, 1, 2, 3]),
      k_write = (\<lambda>bs. Ok (length bs)),
      uv_poll_init = 0, uv_poll_start = 0,
      strerror = strerror_sample, uv_strerror = (\<lambda>e. ''uv error''),
      uv_errno = (\<lambda>e. e)\<rparr>"

text \<open>A device opened on the sample kernel in a fresh process.\<close>

definition opened_sample :: "platform \<Rightarrow> TunDevice \<times> process" where
  "opened_sample pf = snd (Open pf kernel_sample (TunDevice_new None) process_start)"

text \<open>A kernel on which units 1 to 254 are busy and unit 255 is free.\<close>

definition kernel_unit255 :: kernel where
  "kernel_unit255 = kernel_sample\<lparr>k_connect := (\<lambda>u. if u < 255 then Fail 16 else Ok ())\<rparr>"

section \<open>Basic facts\<close>

lemmas sys_defs = syscall_def sys_close_def FileDescriptor_dtor_def FileDescriptor_reset_def
  FileDescriptor_move_assign_def throw_errno_def

lemma open_valid: "dev_inv d \<Longrightarrow> is_open d \<Longrightarrow> is_valid (fd d)"
  by (simp add: dev_inv_def is_valid_def)

lemma dev_inv_new: "dev_inv (TunDevice_new arg)"
  by (simp add: dev_inv_def TunDevice_new_def)

lemma htonl_AF_INET6: "htonl_bytes AF_INET6 = [0, 0, 0, 30]"
  by (simp add: htonl_bytes_def AF_INET6_def)

lemma utun_unit_Nil: "utun_unit [] = 0"
  by (simp add: utun_unit_def)

lemma opened_sample_Linux:
  "opened_sample Linux =
     (\<lparr>fd = 5, name = ''tun0'', is_open = True, poll_handle = None, tsfn = None\<rparr>,
      process_start\<lparr>trace := [SysStat, SysOpenTun, SysTunSetIff 5 [], SysGetFl 5, SysSetFl 5 2050]\<rparr>)"
  by (simp add: opened_sample_def Open_def Open_linux_def Open_finish_def sys_defs
      kernel_sample_def TunDevice_new_def process_start_def c_str_def IFNAMSIZ_def)

lemma opened_sample_Apple:
  "opened_sample Apple =
     (\<lparr>fd = 5, name = ''utun2'', is_open = True, poll_handle = None, tsfn = None\<rparr>,
      process_start\<lparr>errno := 16,
        trace := [SysSocket, SysCtlInfo 5, SysConnect 5 1, SysConnect 5 2, SysConnect 5 3,
                  SysGetIfName 5, SysGetFl 5, SysSetFl 5 6]\<rparr>)"
  by (simp add: opened_sample_def Open_def Open_apple_def Open_finish_def sys_defs
      connect_utun_def kernel_sample_def TunDevice_new_def process_start_def c_str_def
      utun_unit_def EBUSY_def scan_units.simps)

lemma failed_open_sample:
  "Open Linux (kernel_sample\<lparr>k_getfl := Fail 9\<rparr>) (TunDevice_new None) process_start =
     (Inl (Error ''Failed to get file descriptor flags: Bad file descriptor''),
      \<lparr>fd = - 1, name = ''tun0'', is_open = False, poll_handle = None, tsfn = None\<rparr>,
      process_start\<lparr>errno := 9,
        trace := [SysStat, SysOpenTun, SysTunSetIff 5 [], SysGetFl 5, SysClose 5]\<rparr>)"
  by (simp add: Open_def Open_linux_def Open_finish_def sys_defs kernel_sample_def
      TunDevice_new_def process_start_def c_str_def IFNAMSIZ_def strerror_sample_def)

lemma Read_open:
  "is_open d \<Longrightarrow> dev_inv d \<Longrightarrow> \<not> g_shutdown_requested p \<Longrightarrow>
   Read pf k arg d p =
     (case pf of
        Apple \<Rightarrow> Read_apple k (buffer_size_of arg) d p
      | Linux \<Rightarrow> Read_linux k (buffer_size_of arg) d p)"
  by (simp add: Read_def open_valid Let_def)

lemma Read_linux_result:
  "Read_linux k n d p =
     ((case k_read k n of
         Ok bs \<Rightarrow> Inr (take n bs)
       | Fail e \<Rightarrow>
           if e = EAGAIN Linux then Inr [] else Inl (Error (''Read error: '' @ strerror k e))),
      snd (syscall (SysRead (fd d) n) (k_read k n) p))"
  by (simp add: Read_linux_def sys_read_def bytes_read_def buffer_after_def sys_defs min_def
      split: sysres.splits)

section \<open>Shutdown\<close>

text \<open>
  Claim C4. While the global shutdown flag is set, \<open>open()\<close> on a device that is not
  open throws "Shutdown in progress" and changes nothing, \<open>write()\<close> on an open
  device throws "Shutdown in progress", and \<open>read()\<close> on an open device returns a
  buffer of length zero; none of the three makes a system call.
\<close>

theorem C4_shutdown:
  assumes "g_shutdown_requested p" and "dev_inv d"
  shows "(\<not> is_open d \<longrightarrow> Open pf k d p = (Inl (Error ''Shutdown in progress''), d, p)) \<and>
         (is_open d \<longrightarrow> Write pf k arg d p = (Inl (Error ''Shutdown in progress''), p)) \<and>
         (is_open d \<longrightarrow> Read pf k len d p = (Inr [], p))"
  using assms by (simp add: Open_def Write_def Read_def open_valid)

theorem C4_shutdown_witness:
  "Open Linux kernel_sample (TunDevice_new None) (process_start\<lparr>g_shutdown_requested := True\<rparr>) =
     (Inl (Error ''Shutdown in progress''), TunDevice_new None,
      process_start\<lparr>g_shutdown_requested := True\<rparr>) \<and>
   Write Linux kernel_sample (Some [1, 2]) (fst (opened_sample Linux))
       ((snd (opened_sample Linux))\<lparr>g_shutdown_requested := True\<rparr>) =
     (Inl (Error ''Shutdown in progress''),
      (snd (opened_sample Linux))\<lparr>g_shutdown_requested := True\<rparr>) \<and>
   Read Linux kernel_sample None (fst (opened_sample Linux))
       ((snd (opened_sample Linux))\<lparr>g_shutdown_requested := True\<rparr>) =
     (Inr [], (snd (opened_sample Linux))\<lparr>g_shutdown_requested := True\<rparr>)"
  using C4_shutdown [of "process_start\<lparr>g_shutdown_requested := True\<rparr>" "TunDevice_new None"
      Linux kernel_sample]
    C4_shutdown [of "(snd (opened_sample Linux))\<lparr>g_shutdown_requested := True\<rparr>"
      "fst (opened_sample Linux)" Linux kernel_sample "Some [1, 2]" None]
  by (simp add: opened_sample_Linux dev_inv_def TunDevice_new_def process_start_def)

section \<open>Framing of writes on macOS\<close>

text \<open>
  Claim C2. On the utun path, \<open>write(payload)\<close> on an open device (and no shutdown in
  progress) makes exactly one \<open>write\<close> system call, on the device's descriptor, of the
  \<open>N + 4\<close> bytes \<open>00 00 00 1e\<close> (\<open>AF_INET6\<close> in network byte order) followed by
  the \<open>N\<close> payload bytes unchanged. It returns the call's count minus 4, or 0 when
  the call took 4 bytes or fewer; a failed call is thrown as a write error.
\<close>

theorem C2_write_apple_framing:
  assumes "is_open d" and "dev_inv d" and "\<not> g_shutdown_requested p"
  shows "trace (snd (Write Apple k (Some payload) d p)) =
           trace p @ [SysWrite (fd d) ([0, 0, 0, 30] @ payload)] \<and>
         length ([0, 0, 0, 30] @ payload) = length payload + 4 \<and>
         fst (Write Apple k (Some payload) d p) =
           (case k_write k ([0, 0, 0, 30] @ payload) of
              Ok n \<Rightarrow> Inr (if 4 < n then int n - 4 else 0)
            | Fail e \<Rightarrow> Inl (Error (''Write error: '' @ strerror k e)))"
  using assms
  by (simp add: Write_def Write_apple_def open_valid htonl_AF_INET6 sys_defs split: sysres.splits)

theorem C2_write_apple_framing_witness:
  "trace (snd (Write Apple kernel_sample (Some [7, 8, 9]) (fst (opened_sample Apple))
            (snd (opened_sample Apple)))) =
     trace (snd (opened_sample Apple)) @ [SysWrite 5 [0, 0, 0, 30, 7, 8, 9]] \<and>
   fst (Write Apple kernel_sample (Some [7, 8, 9]) (fst (opened_sample Apple))
          (snd (opened_sample Apple))) = Inr 3 \<and>
   fst (Write Apple (kernel_sample\<lparr>k_write := (\<lambda>bs. Ok 4)\<rparr>) (Some [7, 8, 9])
          (fst (opened_sample Apple)) (snd (opened_sample Apple))) = Inr 0"
  using C2_write_apple_framing [of "fst (opened_sample Apple)" "snd (opened_sample Apple)"
      kernel_sample "[7, 8, 9]"]
    C2_write_apple_framing [of "fst (opened_sample Apple)" "snd (opened_sample Apple)"
      "kernel_sample\<lparr>k_write := (\<lambda>bs. Ok 4)\<rparr>" "[7, 8, 9]"]
  by (simp add: opened_sample_Apple dev_inv_def process_start_def kernel_sample_def)

section \<open>Reads on Linux\<close>

text \<open>
  Claim C10. On the Linux path, for an open device with no shutdown in progress: a
  \<open>read\<close> system call that returns 0 bytes gives a buffer of length zero, not an
  error; \<open>read()\<close> throws exactly when the system call fails with an error number
  other than \<open>EAGAIN\<close>/\<open>EWOULDBLOCK\<close>; and a call that fails with
  \<open>EAGAIN\<close> gives a buffer of length zero.
\<close>

theorem C10_read_linux_zero_bytes:
  assumes "is_open d" and "dev_inv d" and "\<not> g_shutdown_requested p"
  shows "(\<forall>bs. k_read k (buffer_size_of arg) = Ok bs \<and> take (buffer_size_of arg) bs = [] \<longrightarrow>
            fst (Read Linux k arg d p) = Inr []) \<and>
         (isl (fst (Read Linux k arg d p)) \<longleftrightarrow>
            (\<exists>e. k_read k (buffer_size_of arg) = Fail e \<and>
                 e \<noteq> EAGAIN Linux \<and> e \<noteq> EWOULDBLOCK Linux)) \<and>
         (k_read k (buffer_size_of arg) = Fail (EAGAIN Linux) \<longrightarrow>
            fst (Read Linux k arg d p) = Inr [])"
proof (cases "k_read k (buffer_size_of arg)")
  case (Ok bs)
  then show ?thesis using assms by (simp add: Read_open Read_linux_result)
next
  case (Fail e)
  then show ?thesis using assms by (simp add: Read_open Read_linux_result)
qed

theorem C10_read_linux_zero_bytes_witness:
  "fst (Read Linux (kernel_sample\<lparr>k_read := (\<lambda>n. Ok [])\<rparr>) None (fst (opened_sample Linux))
          (snd (opened_sample Linux))) = Inr [] \<and>
   fst (Read Linux (kernel_sample\<lparr>k_read := (\<lambda>n. Fail 11)\<rparr>) None (fst (opened_sample Linux))
          (snd (opened_sample Linux))) = Inr [] \<and>
   isl (fst (Read Linux (kernel_sample\<lparr>k_read := (\<lambda>n. Fail 9)\<rparr>) None
          (fst (opened_sample Linux)) (snd (opened_sample Linux))))"
  using C10_read_linux_zero_bytes [of "fst (opened_sample Linux)" "snd (opened_sample Linux)"
      "kernel_sample\<lparr>k_read := (\<lambda>n. Ok [])\<rparr>" None]
    C10_read_linux_zero_bytes [of "fst (opened_sample Linux)" "snd (opened_sample Linux)"
      "kernel_sample\<lparr>k_read := (\<lambda>n. Fail 11)\<rparr>" None]
    C10_read_linux_zero_bytes [of "fst (opened_sample Linux)" "snd (opened_sample Linux)"
      "kernel_sample\<lparr>k_read := (\<lambda>n. Fail 9)\<rparr>" None]
  by (simp add: opened_sample_Linux dev_inv_def process_start_def kernel_sample_def)

section \<open>What a call changes\<close>

subsection \<open>Open\<close>

lemma only_syscalls_refl [simp]: "only_syscalls p p"
  by (simp add: only_syscalls_def)

lemma only_syscalls_trans: "only_syscalls p p1 \<Longrightarrow> only_syscalls p1 p2 \<Longrightarrow> only_syscalls p p2"
  by (simp add: only_syscalls_def)

lemma only_syscalls_syscall: "only_syscalls p (snd (syscall ev r p))"
  by (simp add: only_syscalls_def syscall_def)

lemma only_syscalls_syscall': "syscall ev r p = (r1, p1) \<Longrightarrow> only_syscalls p p1"
  using only_syscalls_syscall [of p ev r] by simp

lemma only_syscalls_dtor: "only_syscalls p (FileDescriptor_dtor k f p)"
  by (simp add: FileDescriptor_dtor_def sys_close_def only_syscalls_syscall)

lemma only_syscalls_dtor': "only_syscalls p p1 \<Longrightarrow> only_syscalls p (FileDescriptor_dtor k f p1)"
  using only_syscalls_dtor only_syscalls_trans by blast

lemma only_syscalls_scan: "scan_units k f u p = (r, p1) \<Longrightarrow> only_syscalls p p1"
proof (induction k f u p arbitrary: r p1 rule: scan_units.induct)
  case (1 k f u p)
  show ?case
  proof (cases "u < 255")
    case False
    with "1.prems" show ?thesis by (simp add: scan_units.simps [of k f u p])
  next
    case True
    obtain a q where s: "syscall (SysConnect f u) (k_connect k u) p = (a, q)"
      by (cases "syscall (SysConnect f u) (k_connect k u) p")
    have pq: "only_syscalls p q" using s by (rule only_syscalls_syscall')
    show ?thesis
    proof (cases a)
      case (Ok x)
      with True s "1.prems" pq show ?thesis by (auto simp: scan_units.simps [of k f u p])
    next
      case (Fail e)
      show ?thesis
      proof (cases "errno q \<noteq> EBUSY")
        case True
        with \<open>u < 255\<close> s Fail "1.prems" pq show ?thesis
          by (auto simp: scan_units.simps [of k f u p])
      next
        case False
        then have "scan_units k f (Suc u) q = (r, p1)"
          using \<open>u < 255\<close> s Fail "1.prems" by (simp add: scan_units.simps [of k f u p])
        then have "only_syscalls q p1"
          using "1.IH" [OF \<open>u < 255\<close> s [symmetric] Fail False] by simp
        with pq show ?thesis by (rule only_syscalls_trans)
      qed
    qed
  qed
qed



lemma only_syscalls_connect: "connect_utun k f u p = (r, p1) \<Longrightarrow> only_syscalls p p1"
  by (auto simp: connect_utun_def split: if_splits prod.splits sysres.splits scan_result.splits
      dest: only_syscalls_syscall' only_syscalls_scan)



lemma Open_apple_frame:
  assumes "Open_apple k d p = (r, d1, p1)"
  shows "only_syscalls p p1 \<and> fd d1 = fd d \<and> is_open d1 = is_open d \<and>
         poll_handle d1 = poll_handle d \<and> tsfn d1 = tsfn d"
proof (cases "k_socket k")
  case (Fail e)
  with assms show ?thesis by (auto simp: Open_apple_def sys_defs only_syscalls_def)
next
  case s: (Ok s)
  show ?thesis
  proof (cases "k_ctl_info k")
    case (Fail e)
    with s assms show ?thesis by (auto simp: Open_apple_def sys_defs only_syscalls_def Let_def)
  next
    case c: (Ok c)
    define p2 where "p2 = snd (syscall (SysCtlInfo (int s)) (k_ctl_info k) (snd (syscall SysSocket (k_socket k) p)))"
    obtain a p3 where cu: "connect_utun k (int s) (utun_unit (name d)) p2 = (a, p3)"
      by (cases "connect_utun k (int s) (utun_unit (name d)) p2")
    have p23: "only_syscalls p2 p3" using cu by (rule only_syscalls_connect)
    have p02: "only_syscalls p p2" by (simp add: p2_def syscall_def only_syscalls_def)
    have p03: "only_syscalls p p3" using p02 p23 by (rule only_syscalls_trans)
    have unfold: "Open_apple k d p =
       (case a of
          Inl ex \<Rightarrow> (Inl ex, d, FileDescriptor_dtor k (int s) p3)
        | Inr u \<Rightarrow>
           (case syscall (SysGetIfName (int s)) (k_ifname k u) p3 of
                       (Fail e, p4) \<Rightarrow>
                         (Inl (throw_errno k ''Failed to get utun interface name: '' p4), d,
                          FileDescriptor_dtor k (int s) p4)
                     | (Ok utunname, p4) \<Rightarrow>
                         (Inr (int s), d\<lparr>name := c_str utunname\<rparr>, p4)))"
      using s c cu by (simp add: Open_apple_def p2_def syscall_def Let_def)
    show ?thesis
    proof (cases a)
      case (Inl ex)
      with assms unfold p03 show ?thesis
        by (auto simp: only_syscalls_def FileDescriptor_dtor_def sys_close_def syscall_def)
    next
      case (Inr u)
      with assms unfold p03 show ?thesis
        by (cases "k_ifname k u")
           (auto simp: only_syscalls_def sys_defs)
    qed
  qed
qed


lemma Open_apple_Inl: "Open_apple k d p = (Inl ex, d1, p1) \<Longrightarrow> d1 = d"
  by (auto simp: Open_apple_def syscall_def Let_def split: sysres.splits prod.splits sum.splits)

lemma Open_apple_Inr:
  "Open_apple k d p = (Inr t, d1, p1) \<Longrightarrow>
   0 \<le> t \<and> (\<exists>u s. k_ifname k u = Ok s \<and> d1 = d\<lparr>name := c_str s\<rparr>)"
  by (auto simp: Open_apple_def syscall_def Let_def split: sysres.splits prod.splits sum.splits)

lemma Open_linux_frame:
  assumes "Open_linux k d p = (r, d1, p1)"
  shows "only_syscalls p p1 \<and> fd d1 = fd d \<and> is_open d1 = is_open d \<and>
         poll_handle d1 = poll_handle d \<and> tsfn d1 = tsfn d"
  using assms
  by (auto simp: Open_linux_def sys_defs Let_def only_syscalls_def split: sysres.splits)

lemma Open_linux_Inl: "Open_linux k d p = (Inl ex, d1, p1) \<Longrightarrow> d1 = d"
  by (auto simp: Open_linux_def syscall_def Let_def split: sysres.splits)

lemma Open_linux_Inr:
  "Open_linux k d p = (Inr t, d1, p1) \<Longrightarrow>
   0 \<le> t \<and> (\<exists>n s. k_tunsetiff k n = Ok s \<and> d1 = d\<lparr>name := c_str s\<rparr>)"
  by (auto simp: Open_linux_def syscall_def Let_def split: sysres.splits)

lemma Open_finish_frame: "Open_finish pf k t d p = (r, d1, p1) \<Longrightarrow> only_syscalls p p1"
  by (auto simp: Open_finish_def sys_defs only_syscalls_def split: sysres.splits if_splits)

lemma Open_finish_Inl: "Open_finish pf k t d p = (Inl ex, d1, p1) \<Longrightarrow> d1 = d"
  by (auto simp: Open_finish_def syscall_def FileDescriptor_move_assign_def split: sysres.splits)

lemma Open_finish_Inr:
  "Open_finish pf k t d p = (Inr b, d1, p1) \<Longrightarrow> b \<and> d1 = d\<lparr>fd := t, is_open := True\<rparr>"
  by (auto simp: Open_finish_def syscall_def FileDescriptor_move_assign_def split: sysres.splits)


lemma Open_not_open:
  assumes "\<not> is_open d" and "\<not> g_shutdown_requested p"
    and "(case pf of Apple \<Rightarrow> Open_apple k d p | Linux \<Rightarrow> Open_linux k d p) = (a, d2, p2)"
  shows "Open pf k d p =
           (case a of Inl ex \<Rightarrow> (Inl ex, d2, p2) | Inr t \<Rightarrow> Open_finish pf k t d2 p2)"
  using assms by (simp add: Open_def split: sum.splits)

lemma platform_frame:
  assumes "(case pf of Apple \<Rightarrow> Open_apple k d p | Linux \<Rightarrow> Open_linux k d p) = (a, d2, p2)"
  shows "only_syscalls p p2 \<and> fd d2 = fd d \<and> is_open d2 = is_open d \<and>
         poll_handle d2 = poll_handle d \<and> tsfn d2 = tsfn d"
  using assms Open_apple_frame [of k d p a d2 p2] Open_linux_frame [of k d p a d2 p2]
  by (cases pf) simp_all

lemma platform_Inl:
  assumes "(case pf of Apple \<Rightarrow> Open_apple k d p | Linux \<Rightarrow> Open_linux k d p) = (Inl ex, d2, p2)"
  shows "d2 = d"
  using assms Open_apple_Inl [of k d p ex d2 p2] Open_linux_Inl [of k d p ex d2 p2]
  by (cases pf) simp_all

lemma platform_Inr:
  assumes "(case pf of Apple \<Rightarrow> Open_apple k d p | Linux \<Rightarrow> Open_linux k d p) = (Inr t, d2, p2)"
  shows "0 \<le> t \<and>
         (\<exists>s. d2 = d\<lparr>name := c_str s\<rparr> \<and>
              ((\<exists>u. k_ifname k u = Ok s) \<or> (\<exists>n. k_tunsetiff k n = Ok s)))"
  using assms Open_apple_Inr [of k d p t d2 p2] Open_linux_Inr [of k d p t d2 p2]
  by (cases pf) auto

text \<open>What one call of Open does to the device and to the process.\<close>

lemma Open_effect:
  assumes "Open pf k d p = (r, d1, p1)"
  shows "only_syscalls p p1 \<and> poll_handle d1 = poll_handle d \<and> tsfn d1 = tsfn d \<and>
         (case r of
            Inl ex \<Rightarrow> \<not> is_open d \<and> \<not> is_open d1 \<and> fd d1 = fd d
          | Inr b \<Rightarrow> b \<and> is_open d1 \<and> (if is_open d then d1 = d else 0 \<le> fd d1))"
proof (cases "is_open d \<or> g_shutdown_requested p")
  case True
  with assms show ?thesis by (auto simp: Open_def)
next
  case False
  obtain a d2 p2 where
    pl: "(case pf of Apple \<Rightarrow> Open_apple k d p | Linux \<Rightarrow> Open_linux k d p) = (a, d2, p2)"
    by (cases "case pf of Apple \<Rightarrow> Open_apple k d p | Linux \<Rightarrow> Open_linux k d p")
  note fr = platform_frame [OF pl]
  show ?thesis
  proof (cases a)
    case (Inl ex)
    with False pl assms fr show ?thesis by (auto simp: Open_not_open)
  next
    case (Inr t)
    then have fin: "Open_finish pf k t d2 p2 = (r, d1, p1)"
      using False pl assms by (simp add: Open_not_open)
    have "only_syscalls p2 p1" using fin by (rule Open_finish_frame)
    with fr have "only_syscalls p p1" by (blast intro: only_syscalls_trans)
    moreover have "0 \<le> t" using platform_Inr pl Inr by blast
    ultimately show ?thesis
      using fr False Open_finish_Inl [of pf k t d2 p2 _ d1 p1] Open_finish_Inr [of pf k t d2 p2 _ d1 p1] fin
      by (cases r) auto
  qed
qed

lemma Open_name:
  assumes "Open pf k d p = (Inr b, d1, p1)" and "kernel_names_ok k" and "\<not> is_open d"
  shows "name d1 \<noteq> []"
proof -
  have ns: "\<not> g_shutdown_requested p" using assms by (auto simp: Open_def)
  obtain a d2 p2 where
    pl: "(case pf of Apple \<Rightarrow> Open_apple k d p | Linux \<Rightarrow> Open_linux k d p) = (a, d2, p2)"
    by (cases "case pf of Apple \<Rightarrow> Open_apple k d p | Linux \<Rightarrow> Open_linux k d p")
  show ?thesis
  proof (cases a)
    case (Inl ex)
    with assms ns pl show ?thesis by (simp add: Open_not_open)
  next
    case (Inr t)
    then have fin: "Open_finish pf k t d2 p2 = (Inr b, d1, p1)"
      using assms ns pl by (simp add: Open_not_open)
    then have "name d1 = name d2" using Open_finish_Inr by fastforce
    moreover have "name d2 \<noteq> []"
      using platform_Inr [OF pl [unfolded Inr]] assms(2) by (auto simp: kernel_names_ok_def)
    ultimately show ?thesis by simp
  qed
qed

subsection \<open>Close and the destructor\<close>

lemma closed_fds_append: "closed_fds (xs @ ys) = closed_fds xs @ closed_fds ys"
  by (induction xs rule: closed_fds.induct) simp_all

lemma connect_units_append: "connect_units (xs @ ys) = connect_units xs @ connect_units ys"
  by (induction xs rule: connect_units.induct) simp_all

lemma StopPolling_device: "fst (StopPolling d p) = d\<lparr>poll_handle := None, tsfn := None\<rparr>"
  by (simp add: StopPolling_def split: option.splits)

lemma StopPolling_process:
  "snd (StopPolling d p) =
     p\<lparr>active_polls := fold removeAll (opt_list (poll_handle d)) (active_polls p),
       live_polls := fold removeAll (opt_list (poll_handle d)) (live_polls p),
       live_tsfns := fold removeAll (opt_list (tsfn d)) (live_tsfns p)\<rparr>"
  by (simp add: StopPolling_def split: option.splits)

lemma StopPolling_res_inv:
  assumes "res_inv d p"
  shows "snd (StopPolling d p) = p\<lparr>active_polls := [], live_polls := [], live_tsfns := []\<rparr>"
  using assms by (cases "poll_handle d"; cases "tsfn d") (simp_all add: StopPolling_process res_inv_def)

lemma CloseInternal_closed: "\<not> is_open d \<Longrightarrow> CloseInternal k d p = (d, p)"
  by (simp add: CloseInternal_def)

lemma CloseInternal_open:
  "is_open d \<Longrightarrow>
   CloseInternal k d p =
     (d\<lparr>is_open := False, poll_handle := None, tsfn := None, fd := - 1\<rparr>,
      FileDescriptor_dtor k (fd d) (snd (StopPolling (d\<lparr>is_open := False\<rparr>) p)))"
  by (simp add: CloseInternal_def FileDescriptor_reset_def FileDescriptor_dtor_def
      StopPolling_device split_beta Let_def)

lemma closed_fds_StopPolling: "trace (snd (StopPolling d p)) = trace p"
  by (simp add: StopPolling_process)

lemma closed_fds_dtor:
  "closed_fds (trace (FileDescriptor_dtor k f p)) = closed_fds (trace p) @ (if 0 \<le> f then [f] else [])"
  by (simp add: FileDescriptor_dtor_def sys_close_def syscall_def closed_fds_append)

lemma Close_effect:
  assumes "dev_inv d"
  shows "fst (Close k d p) = True \<and>
         dev_inv (fst (snd (Close k d p))) \<and> \<not> is_open (fst (snd (Close k d p))) \<and>
         closed_fds (trace (snd (snd (Close k d p)))) =
           closed_fds (trace p) @ (if is_open d then [fd d] else [])"
  using assms
  by (cases "is_open d")
     (simp_all add: Close_def CloseInternal_closed CloseInternal_open dev_inv_def closed_fds_dtor
        closed_fds_StopPolling)

lemma dtor_effect:
  assumes "dev_inv d"
  shows "closed_fds (trace (TunDevice_dtor k d p)) =
           closed_fds (trace p) @ (if is_open d then [fd d] else [])"
  using assms
  by (cases "is_open d")
     (simp_all add: TunDevice_dtor_def CloseInternal_closed CloseInternal_open dev_inv_def
        closed_fds_dtor closed_fds_StopPolling)

lemma run_Nil [simp]: "run pf [] s = s"
  by (simp add: run_def)

lemma run_Cons [simp]: "run pf (c # cs) s = run pf cs (exec pf c s)"
  by (simp add: run_def)

lemma run_append: "run pf (cs @ cs') s = run pf cs' (run pf cs s)"
  by (simp add: run_def)

lemma run_closes:
  assumes "dev_inv d" and "\<forall>c\<in>set cs. is_close c"
  shows "dev_inv (fst (run pf cs (d, p))) \<and>
         is_open (fst (run pf cs (d, p))) = (is_open d \<and> cs = []) \<and>
         (cs = [] \<or> \<not> is_open d \<or> fd (fst (run pf cs (d, p))) = - 1) \<and>
         closed_fds (trace (snd (run pf cs (d, p)))) =
           closed_fds (trace p) @ (if is_open d \<and> cs \<noteq> [] then [fd d] else [])"
  using assms
proof (induction cs arbitrary: d p)
  case Nil
  then show ?case by simp
next
  case (Cons c cs)
  then obtain k where c: "c = CallClose k" by (cases c) auto
  obtain d1 p1 where cl: "snd (Close k d p) = (d1, p1)" by (cases "snd (Close k d p)")
  have eff: "dev_inv d1 \<and> \<not> is_open d1 \<and>
      closed_fds (trace p1) = closed_fds (trace p) @ (if is_open d then [fd d] else [])"
    using Close_effect [OF Cons.prems(1), of k p] cl by simp
  have ih: "dev_inv (fst (run pf cs (d1, p1))) \<and>
         is_open (fst (run pf cs (d1, p1))) = (is_open d1 \<and> cs = []) \<and>
         closed_fds (trace (snd (run pf cs (d1, p1)))) =
           closed_fds (trace p1) @ (if is_open d1 \<and> cs \<noteq> [] then [fd d1] else [])"
    using Cons.IH [of d1 p1] eff Cons.prems(2) by simp
  have "fd (fst (run pf cs (d1, p1))) = - 1"
    using ih eff by (simp add: dev_inv_def)
  with ih eff show ?case by (simp add: c cl)
qed

subsection \<open>Read, Write, StartPolling and PollCallback\<close>

lemma only_syscalls_sys_read: "only_syscalls p (snd (sys_read k f n p))"
  by (simp add: sys_read_def syscall_def only_syscalls_def split: sysres.splits)

lemma Read_frame: "only_syscalls p (snd (Read pf k arg d p))"
  by (cases pf)
     (simp_all add: Read_def Read_apple_def Read_linux_def Let_def split_beta only_syscalls_sys_read)

lemma Write_frame: "only_syscalls p (snd (Write pf k arg d p))"
  by (cases pf; cases arg)
     (simp_all add: Write_def Write_apple_def Write_linux_def Let_def syscall_def
        only_syscalls_def split: sysres.splits)

lemma only_syscalls_log: "only_syscalls p p1 \<Longrightarrow> only_syscalls p (log_stderr s p1)"
  by (simp add: only_syscalls_def log_stderr_def)

lemma only_syscalls_trace: "only_syscalls p p1 \<Longrightarrow> only_syscalls p (p1\<lparr>trace := t\<rparr>)"
  by (simp add: only_syscalls_def)

lemma PollCallback_frame: "only_syscalls p (PollCallback pf k st ev d p)"
  by (cases pf)
     (simp_all add: PollCallback_def Let_def split_beta only_syscalls_sys_read only_syscalls_log
        only_syscalls_trace)

lemma res_inv_only_syscalls: "res_inv d p \<Longrightarrow> only_syscalls p p1 \<Longrightarrow> res_inv d p1"
  by (simp add: res_inv_def only_syscalls_def)

lemma StartPolling_not_started:
  "\<not> is_open d \<or> \<not> is_valid (fd d) \<or> cb = None \<Longrightarrow>
   snd (StartPolling k cb d p) = (d, p) \<and> isl (fst (StartPolling k cb d p))"
  by (auto simp: StartPolling_def split: option.splits)

text \<open>StartPolling on an open device with a callback, in a state where the resources
  held are the resources allocated.\<close>

lemma StartPolling_started:
  assumes "is_open d" and "is_valid (fd d)" and "res_inv d p"
  shows "StartPolling k (Some f) d p =
     (if uv_poll_init k \<noteq> 0 then
        (Inl (Error ''Failed to initialize poll handle''), d\<lparr>poll_handle := None, tsfn := Some (next_id p)\<rparr>,
         p\<lparr>active_polls := [], live_polls := [], live_tsfns := [next_id p],
           next_id := Suc (Suc (next_id p)), errno := uv_errno k (errno p)\<rparr>)
      else if uv_poll_start k \<noteq> 0 then
        (Inl (Error ''Failed to start polling''), d\<lparr>poll_handle := None, tsfn := Some (next_id p)\<rparr>,
         p\<lparr>active_polls := [], live_polls := [], live_tsfns := [next_id p],
           next_id := Suc (Suc (next_id p)), errno := uv_errno k (errno p)\<rparr>)
      else
        (Inr (), d\<lparr>poll_handle := Some (Suc (next_id p)), tsfn := Some (next_id p)\<rparr>,
         p\<lparr>active_polls := [Suc (next_id p)], live_polls := [Suc (next_id p)],
           live_tsfns := [next_id p], next_id := Suc (Suc (next_id p)),
           errno := uv_errno k (errno p)\<rparr>))"
proof -
  obtain d1 p1 where sp: "StopPolling d p = (d1, p1)" by (cases "StopPolling d p")
  have d1: "d1 = d\<lparr>poll_handle := None, tsfn := None\<rparr>"
    using StopPolling_device [of d p] sp by simp
  have p1: "p1 = p\<lparr>active_polls := [], live_polls := [], live_tsfns := []\<rparr>"
    using StopPolling_res_inv [OF assms(3)] sp by simp
  show ?thesis
    using assms(1,2) by (simp add: StartPolling_def sp d1 p1 Let_def)
qed

lemma StartPolling_res_inv:
  assumes "dev_inv d" and "res_inv d p"
  shows "res_inv (fst (snd (StartPolling k cb d p))) (snd (snd (StartPolling k cb d p)))"
proof (cases "is_open d \<and> cb \<noteq> None")
  case False
  then show ?thesis using assms StartPolling_not_started [of d cb k p] by auto
next
  case True
  then obtain f where "cb = Some f" by auto
  with True assms show ?thesis
    by (simp add: StartPolling_started open_valid res_inv_def)
qed

lemma StartPolling_device:
  "fd (fst (snd (StartPolling k cb d p))) = fd d \<and>
   is_open (fst (snd (StartPolling k cb d p))) = is_open d \<and>
   name (fst (snd (StartPolling k cb d p))) = name d"
  by (auto simp: StartPolling_def StopPolling_def Let_def split: option.splits)

lemma StartPolling_registry:
  "g_active_devices (snd (snd (StartPolling k cb d p))) = g_active_devices p"
  by (auto simp: StartPolling_def StopPolling_def Let_def split: option.splits)

lemma Close_registry: "g_active_devices (snd (snd (Close k d p))) = g_active_devices p"
  by (cases "is_open d")
     (simp_all add: Close_def CloseInternal_closed CloseInternal_open FileDescriptor_dtor_def
        sys_close_def syscall_def StopPolling_process)

lemma Close_res_inv:
  assumes "res_inv d p"
  shows "res_inv (fst (snd (Close k d p))) (snd (snd (Close k d p)))"
proof (cases "is_open d")
  case False
  with assms show ?thesis by (simp add: Close_def CloseInternal_closed)
next
  case True
  have "res_inv (d\<lparr>is_open := False\<rparr>) p" using assms by (simp add: res_inv_def)
  then have "snd (StopPolling (d\<lparr>is_open := False\<rparr>) p) =
      p\<lparr>active_polls := [], live_polls := [], live_tsfns := []\<rparr>"
    by (rule StopPolling_res_inv)
  with True show ?thesis
    by (simp add: Close_def CloseInternal_open FileDescriptor_dtor_def sys_close_def syscall_def
        res_inv_def)
qed

subsection \<open>Sequences of calls\<close>

lemma Open_dev_inv:
  assumes "dev_inv d"
  shows "dev_inv (fst (snd (Open pf k d p)))"
proof -
  obtain r d1 p1 where o: "Open pf k d p = (r, d1, p1)" by (cases "Open pf k d p")
  show ?thesis
    using Open_effect [OF o] assms o by (cases r) (auto simp: dev_inv_def split: if_splits)
qed

lemma Open_res_inv:
  assumes "res_inv d p"
  shows "res_inv (fst (snd (Open pf k d p))) (snd (snd (Open pf k d p)))"
proof -
  obtain r d1 p1 where o: "Open pf k d p = (r, d1, p1)" by (cases "Open pf k d p")
  show ?thesis
    using Open_effect [OF o] assms o by (simp add: res_inv_def only_syscalls_def)
qed

lemma Open_registry: "g_active_devices (snd (snd (Open pf k d p))) = g_active_devices p"
proof -
  obtain r d1 p1 where o: "Open pf k d p = (r, d1, p1)" by (cases "Open pf k d p")
  show ?thesis using Open_effect [OF o] o by (simp add: only_syscalls_def)
qed

lemma exec_dev_inv: "dev_inv d \<Longrightarrow> dev_inv (fst (exec pf c (d, p)))"
proof (cases c)
  case (CallOpen k)
  assume "dev_inv d"
  then show ?thesis using Open_dev_inv [of d pf k p] CallOpen by simp
next
  case (CallClose k)
  assume "dev_inv d"
  then show ?thesis using Close_effect [of d k p] CallClose by simp
next
  case (CallStartPolling k cb)
  assume "dev_inv d"
  then show ?thesis
    using StartPolling_device [of k cb d p] StartPolling_not_started [of d cb k p] CallStartPolling
    by (cases "is_open d") (auto simp: dev_inv_def)
qed simp_all

lemma exec_res_inv:
  assumes "dev_inv d" and "res_inv d p"
  shows "res_inv (fst (exec pf c (d, p))) (snd (exec pf c (d, p)))"
proof (cases c)
  case (CallOpen k)
  then show ?thesis using Open_res_inv [OF assms(2)] by simp
next
  case (CallClose k)
  then show ?thesis using Close_res_inv [OF assms(2)] by simp
next
  case (CallRead k arg)
  then show ?thesis using res_inv_only_syscalls [OF assms(2) Read_frame] by simp
next
  case (CallWrite k arg)
  then show ?thesis using res_inv_only_syscalls [OF assms(2) Write_frame] by simp
next
  case (CallStartPolling k cb)
  then show ?thesis using StartPolling_res_inv [OF assms] by simp
next
  case (CallPoll k st ev)
  then show ?thesis using res_inv_only_syscalls [OF assms(2) PollCallback_frame] by simp
qed (simp_all add: assms)

lemma exec_registry: "g_active_devices (snd (exec pf c (d, p))) = g_active_devices p"
proof (cases c)
  case (CallOpen k)
  then show ?thesis by (simp add: Open_registry)
next
  case (CallClose k)
  then show ?thesis by (simp add: Close_registry)
next
  case (CallRead k arg)
  then show ?thesis using Read_frame [of p pf k arg d] by (simp add: only_syscalls_def)
next
  case (CallWrite k arg)
  then show ?thesis using Write_frame [of p pf k arg d] by (simp add: only_syscalls_def)
next
  case (CallStartPolling k cb)
  then show ?thesis by (simp add: StartPolling_registry)
next
  case (CallPoll k st ev)
  then show ?thesis using PollCallback_frame [of p pf k st ev d] by (simp add: only_syscalls_def)
qed simp_all

lemma exec_keeps_open:
  assumes "is_open d" and "\<not> is_close c"
  shows "is_open (fst (exec pf c (d, p))) \<and> fd (fst (exec pf c (d, p))) = fd d \<and>
         name (fst (exec pf c (d, p))) = name d"
proof (cases c)
  case (CallOpen k)
  with assms show ?thesis by (simp add: Open_def)
next
  case (CallClose k)
  with assms show ?thesis by simp
next
  case (CallStartPolling k cb)
  with assms show ?thesis using StartPolling_device [of k cb d p] by simp
qed (simp_all add: assms)

lemma exec_name_inv:
  assumes "dev_inv d" and "is_open d \<longrightarrow> name d \<noteq> []" and "call_names_ok c"
  shows "is_open (fst (exec pf c (d, p))) \<longrightarrow> name (fst (exec pf c (d, p))) \<noteq> []"
proof (cases c)
  case (CallOpen k)
  obtain r d1 p1 where o: "Open pf k d p = (r, d1, p1)" by (cases "Open pf k d p")
  show ?thesis
  proof (cases "is_open d")
    case True
    with assms CallOpen show ?thesis by (simp add: Open_def)
  next
    case False
    show ?thesis
    proof (cases r)
      case (Inl ex)
      then show ?thesis using Open_effect [OF o] o CallOpen by simp
    next
      case (Inr b)
      then show ?thesis using Open_name [of pf k d p b d1 p1] o CallOpen assms(3) False by simp
    qed
  qed
next
  case (CallClose k)
  then show ?thesis using Close_effect [OF assms(1), of k p] by simp
next
  case (CallStartPolling k cb)
  then show ?thesis using StartPolling_device [of k cb d p] assms(2) by simp
qed (simp_all add: assms)

lemma run_inv:
  assumes "dev_inv d" and "res_inv d p"
  shows "dev_inv (fst (run pf cs (d, p))) \<and> res_inv (fst (run pf cs (d, p))) (snd (run pf cs (d, p)))"
  using assms
proof (induction cs arbitrary: d p)
  case Nil
  then show ?case by simp
next
  case (Cons c cs)
  show ?case
    using Cons.IH [of "fst (exec pf c (d, p))" "snd (exec pf c (d, p))"]
      exec_dev_inv [OF Cons.prems(1), of pf c p] exec_res_inv [OF Cons.prems, of pf c]
    by simp
qed

lemma run_name_inv:
  assumes "dev_inv d" and "is_open d \<longrightarrow> name d \<noteq> []" and "\<forall>c\<in>set cs. call_names_ok c"
  shows "dev_inv (fst (run pf cs (d, p))) \<and>
         (is_open (fst (run pf cs (d, p))) \<longrightarrow> name (fst (run pf cs (d, p))) \<noteq> [])"
  using assms
proof (induction cs arbitrary: d p)
  case Nil
  then show ?case by simp
next
  case (Cons c cs)
  show ?case
    using Cons.IH [of "fst (exec pf c (d, p))" "snd (exec pf c (d, p))"]
      exec_dev_inv [OF Cons.prems(1), of pf c p] exec_name_inv [OF Cons.prems(1,2), of c pf p]
      Cons.prems(3)
    by simp
qed

lemma run_keeps_open:
  assumes "is_open d" and "\<forall>c\<in>set cs. \<not> is_close c"
  shows "is_open (fst (run pf cs (d, p))) \<and> fd (fst (run pf cs (d, p))) = fd d \<and>
         name (fst (run pf cs (d, p))) = name d"
  using assms
proof (induction cs arbitrary: d p)
  case Nil
  then show ?case by simp
next
  case (Cons c cs)
  show ?case
    using Cons.IH [of "fst (exec pf c (d, p))" "snd (exec pf c (d, p))"]
      exec_keeps_open [OF Cons.prems(1), of c pf p] Cons.prems(2)
    by simp
qed

section \<open>The scan for a free utun unit\<close>

lemma scan_units_busy:
  assumes "\<forall>v. u \<le> v \<and> v < w \<longrightarrow> k_connect k v = Fail EBUSY" and "u \<le> w" and "w \<le> 255"
  shows "scan_units k f u p =
           scan_units k f w
             (if u < w then p\<lparr>errno := EBUSY, trace := trace p @ map (SysConnect f) [u..<w]\<rparr>
              else p)"
  using assms
proof (induction "w - u" arbitrary: u p)
  case 0
  then show ?case by simp
next
  case (Suc n)
  then have lt: "u < w" and u255: "u < 255" by simp_all
  have busy: "k_connect k u = Fail EBUSY" using Suc.prems lt by simp
  define p1 where "p1 = p\<lparr>errno := EBUSY, trace := trace p @ [SysConnect f u]\<rparr>"
  have step: "scan_units k f u p = scan_units k f (Suc u) p1"
    using u255 busy by (simp add: scan_units.simps [of k f u p] syscall_def p1_def)
  have ih: "scan_units k f (Suc u) p1 =
      scan_units k f w
        (if Suc u < w then p1\<lparr>errno := EBUSY, trace := trace p1 @ map (SysConnect f) [Suc u..<w]\<rparr>
         else p1)"
    using Suc.hyps(1) [of "Suc u" p1] Suc.hyps(2) Suc.prems by simp
  have "(if Suc u < w then p1\<lparr>errno := EBUSY, trace := trace p1 @ map (SysConnect f) [Suc u..<w]\<rparr>
         else p1) = p\<lparr>errno := EBUSY, trace := trace p @ map (SysConnect f) [u..<w]\<rparr>"
    using lt by (auto simp: p1_def upt_conv_Cons)
  with step ih lt show ?case by simp
qed

lemma scan_units_connected:
  "u < 255 \<Longrightarrow> k_connect k u = Ok () \<Longrightarrow>
   scan_units k f u p = (Connected u, p\<lparr>trace := trace p @ [SysConnect f u]\<rparr>)"
  by (simp add: scan_units.simps [of k f u p] syscall_def)

lemma scan_units_error:
  "u < 255 \<Longrightarrow> k_connect k u = Fail e \<Longrightarrow> e \<noteq> EBUSY \<Longrightarrow>
   scan_units k f u p = (ConnectError, p\<lparr>errno := e, trace := trace p @ [SysConnect f u]\<rparr>)"
  by (simp add: scan_units.simps [of k f u p] syscall_def)

lemma scan_units_end: "scan_units k f 255 p = (NoFreeUnit, p)"
  by (simp add: scan_units.simps [of k f 255 p])

text \<open>The three ways the scan from unit 1 can end.\<close>

lemma scan_all_busy:
  assumes "\<forall>v. 1 \<le> v \<and> v < 255 \<longrightarrow> k_connect k v = Fail EBUSY"
  shows "scan_units k f 1 p =
           (NoFreeUnit, p\<lparr>errno := EBUSY, trace := trace p @ map (SysConnect f) [1..<255]\<rparr>)"
  using scan_units_busy [of 1 255 k f p] assms by (simp add: scan_units_end)

lemma scan_first_free:
  assumes "\<forall>v. 1 \<le> v \<and> v < u \<longrightarrow> k_connect k v = Fail EBUSY" and "1 \<le> u" and "u < 255"
    and "k_connect k u = Ok ()"
  shows "\<exists>p1. scan_units k f 1 p = (Connected u, p1) \<and>
              trace p1 = trace p @ map (SysConnect f) [1..<Suc u] \<and> only_syscalls p p1"
proof -
  define q where "q = (if 1 < u then p\<lparr>errno := EBUSY, trace := trace p @ map (SysConnect f) [1..<u]\<rparr> else p)"
  have "scan_units k f 1 p = scan_units k f u q"
    using scan_units_busy [of 1 u k f p] assms by (simp add: q_def)
  also have "\<dots> = (Connected u, q\<lparr>trace := trace q @ [SysConnect f u]\<rparr>)"
    using assms by (simp add: scan_units_connected)
  finally show ?thesis using assms(2) by (auto simp: q_def only_syscalls_def)
qed

lemma scan_first_error:
  assumes "\<forall>v. 1 \<le> v \<and> v < u \<longrightarrow> k_connect k v = Fail EBUSY" and "1 \<le> u" and "u < 255"
    and "k_connect k u = Fail e" and "e \<noteq> EBUSY"
  shows "\<exists>p1. scan_units k f 1 p = (ConnectError, p1) \<and> errno p1 = e \<and>
              trace p1 = trace p @ map (SysConnect f) [1..<Suc u] \<and> only_syscalls p p1"
proof -
  define q where "q = (if 1 < u then p\<lparr>errno := EBUSY, trace := trace p @ map (SysConnect f) [1..<u]\<rparr> else p)"
  have "scan_units k f 1 p = scan_units k f u q"
    using scan_units_busy [of 1 u k f p] assms by (simp add: q_def)
  also have "\<dots> = (ConnectError, q\<lparr>errno := e, trace := trace q @ [SysConnect f u]\<rparr>)"
    using assms by (simp add: scan_units_error)
  finally show ?thesis using assms(2) by (auto simp: q_def only_syscalls_def)
qed

lemma connect_units_map: "connect_units (map (SysConnect f) us) = us"
  by (induction us) simp_all

lemma connect_units_dtor: "connect_units (trace (FileDescriptor_dtor k f p)) = connect_units (trace p)"
  by (simp add: FileDescriptor_dtor_def sys_close_def syscall_def connect_units_append)

lemma connect_units_finish:
  "connect_units (trace (snd (snd (Open_finish pf k t d p)))) = connect_units (trace p)"
  by (simp add: Open_finish_def sys_defs connect_units_append split: sysres.splits)

text \<open>Open on macOS when no unit is requested and the control socket is there: the
  rest of the call after the scan.\<close>

lemma Open_apple_scan:
  assumes "\<not> is_open d" and "\<not> g_shutdown_requested p" and "utun_unit (name d) \<le> 0"
    and "k_socket k = Ok s" and "k_ctl_info k = Ok c"
    and "scan_units k (int s) 1 (p\<lparr>trace := trace p @ [SysSocket, SysCtlInfo (int s)]\<rparr>) = (sr, p3)"
  shows "Open Apple k d p =
     (case sr of
        Connected u \<Rightarrow>
          (case k_ifname k u of
             Fail e \<Rightarrow>
               (Inl (Error (''Failed to get utun interface name: '' @ strerror k e)), d,
                FileDescriptor_dtor k (int s)
                  (p3\<lparr>errno := e, trace := trace p3 @ [SysGetIfName (int s)]\<rparr>))
           | Ok nm \<Rightarrow>
               Open_finish Apple k (int s) (d\<lparr>name := c_str nm\<rparr>)
                 (p3\<lparr>trace := trace p3 @ [SysGetIfName (int s)]\<rparr>))
      | ConnectError \<Rightarrow>
          (Inl (Error (''Failed to connect to utun control socket: '' @ strerror k (errno p3))), d,
           FileDescriptor_dtor k (int s) p3)
      | NoFreeUnit \<Rightarrow>
          (Inl (Error ''Could not find an available utun device''), d,
           FileDescriptor_dtor k (int s) p3))"
  using assms
  by (cases sr; cases "k_ifname k (case sr of Connected u \<Rightarrow> u | _ \<Rightarrow> 0)")
     (simp_all add: Open_def Open_apple_def connect_utun_def syscall_def throw_errno_def Let_def)

lemma Open_finish_ok:
  "k_getfl k = Ok fl \<Longrightarrow> k_setfl k (fl OR O_NONBLOCK pf) = Ok () \<Longrightarrow>
   fst (Open_finish pf k t d p) = Inr True \<and>
   fst (snd (Open_finish pf k t d p)) = d\<lparr>fd := t, is_open := True\<rparr>"
  by (simp add: Open_finish_def sys_defs)

text \<open>
  Claim C5, as amended. On the utun path, when the name requests no unit and the
  control socket and its control id are there, \<open>open()\<close> tries to connect to the units
  1, 2, ... up to 254 in this order (the bound 255 of the loop is exclusive: unit 255 is
  never tried) and stops at the first unit that is not busy. If that unit connects, no
  further unit is tried and the open goes on with the name query (and succeeds with the
  kernel's name when the remaining calls succeed); if it fails with an error other than
  \<open>EBUSY\<close>, the open fails with that connect error; if all 254 units are busy, the
  open fails with "Could not find an available utun device".
\<close>

theorem C5_scan_units_1_to_254:
  assumes "\<not> is_open d" and "\<not> g_shutdown_requested p" and "utun_unit (name d) \<le> 0"
    and "k_socket k = Ok s" and "k_ctl_info k = Ok c"
  shows
    "((\<forall>v. 1 \<le> v \<and> v < 255 \<longrightarrow> k_connect k v = Fail EBUSY) \<longrightarrow>
        fst (Open Apple k d p) = Inl (Error ''Could not find an available utun device'') \<and>
        connect_units (trace (snd (snd (Open Apple k d p)))) = connect_units (trace p) @ [1..<255]) \<and>
     (\<forall>u e. 1 \<le> u \<and> u < 255 \<and> (\<forall>v. 1 \<le> v \<and> v < u \<longrightarrow> k_connect k v = Fail EBUSY) \<and>
            k_connect k u = Fail e \<and> e \<noteq> EBUSY \<longrightarrow>
        fst (Open Apple k d p) =
          Inl (Error (''Failed to connect to utun control socket: '' @ strerror k e)) \<and>
        connect_units (trace (snd (snd (Open Apple k d p)))) = connect_units (trace p) @ [1..<Suc u]) \<and>
     (\<forall>u. 1 \<le> u \<and> u < 255 \<and> (\<forall>v. 1 \<le> v \<and> v < u \<longrightarrow> k_connect k v = Fail EBUSY) \<and>
          k_connect k u = Ok () \<longrightarrow>
        connect_units (trace (snd (snd (Open Apple k d p)))) = connect_units (trace p) @ [1..<Suc u] \<and>
        (\<forall>nm fl. k_ifname k u = Ok nm \<and> k_getfl k = Ok fl \<and>
                 k_setfl k (fl OR O_NONBLOCK Apple) = Ok () \<longrightarrow>
           fst (Open Apple k d p) = Inr True \<and>
           fst (snd (Open Apple k d p)) = d\<lparr>name := c_str nm, fd := int s, is_open := True\<rparr>))"
proof (intro conjI allI impI)
  define p2 where "p2 = p\<lparr>trace := trace p @ [SysSocket, SysCtlInfo (int s)]\<rparr>"
  have cu2: "connect_units (trace p2) = connect_units (trace p)"
    by (simp add: p2_def connect_units_append)
  {
    assume busy: "\<forall>v. 1 \<le> v \<and> v < 255 \<longrightarrow> k_connect k v = Fail EBUSY"
    have sc: "scan_units k (int s) 1 p2 =
        (NoFreeUnit, p2\<lparr>errno := EBUSY, trace := trace p2 @ map (SysConnect (int s)) [1..<255]\<rparr>)"
      using busy by (rule scan_all_busy)
    note o = Open_apple_scan [OF assms sc [unfolded p2_def]]
    show "fst (Open Apple k d p) = Inl (Error ''Could not find an available utun device'')"
      by (simp add: o)
    show "connect_units (trace (snd (snd (Open Apple k d p)))) = connect_units (trace p) @ [1..<255]"
      using cu2 by (simp add: o connect_units_dtor connect_units_append connect_units_map p2_def)
  }
  {
    fix u e
    assume h: "1 \<le> u \<and> u < 255 \<and> (\<forall>v. 1 \<le> v \<and> v < u \<longrightarrow> k_connect k v = Fail EBUSY) \<and>
            k_connect k u = Fail e \<and> e \<noteq> EBUSY"
    then obtain p3 where sc: "scan_units k (int s) 1 p2 = (ConnectError, p3)" and e: "errno p3 = e"
      and tr: "trace p3 = trace p2 @ map (SysConnect (int s)) [1..<Suc u]"
      using scan_first_error [of u k e "int s" p2] by blast
    note o = Open_apple_scan [OF assms sc [unfolded p2_def]]
    show "fst (Open Apple k d p) =
          Inl (Error (''Failed to connect to utun control socket: '' @ strerror k e))"
      by (simp add: o e)
    show "connect_units (trace (snd (snd (Open Apple k d p)))) = connect_units (trace p) @ [1..<Suc u]"
      using cu2 by (simp add: o connect_units_dtor tr connect_units_append connect_units_map)
  }
  {
    fix u
    assume h: "1 \<le> u \<and> u < 255 \<and> (\<forall>v. 1 \<le> v \<and> v < u \<longrightarrow> k_connect k v = Fail EBUSY) \<and>
          k_connect k u = Ok ()"
    then obtain p3 where sc: "scan_units k (int s) 1 p2 = (Connected u, p3)"
      and tr: "trace p3 = trace p2 @ map (SysConnect (int s)) [1..<Suc u]"
      using scan_first_free [of u k "int s" p2] by blast
    note o = Open_apple_scan [OF assms sc [unfolded p2_def]]
    show "connect_units (trace (snd (snd (Open Apple k d p)))) = connect_units (trace p) @ [1..<Suc u]"
      using cu2
      by (cases "k_ifname k u")
         (simp_all add: o connect_units_dtor connect_units_finish tr connect_units_append
            connect_units_map)
    {
      fix nm fl
      assume g: "k_ifname k u = Ok nm \<and> k_getfl k = Ok fl \<and> k_setfl k (fl OR O_NONBLOCK Apple) = Ok ()"
      then have f: "Open Apple k d p =
          Open_finish Apple k (int s) (d\<lparr>name := c_str nm\<rparr>)
            (p3\<lparr>trace := trace p3 @ [SysGetIfName (int s)]\<rparr>)"
        by (simp add: o)
      show "fst (Open Apple k d p) = Inr True"
        using g Open_finish_ok [of k fl Apple] by (simp add: f)
      show "fst (snd (Open Apple k d p)) = d\<lparr>name := c_str nm, fd := int s, is_open := True\<rparr>"
        using g Open_finish_ok [of k fl Apple] by (simp add: f)
    }
  }
qed

text \<open>
  Unit 255 is free and units 1 to 254 are busy: the open fails and unit 255 was not
  tried.
\<close>

theorem C5_unit_255_never_tried:
  "fst (Open Apple kernel_unit255 (TunDevice_new None) process_start) =
     Inl (Error ''Could not find an available utun device'') \<and>
   k_connect kernel_unit255 255 = Ok () \<and>
   255 \<notin> set (connect_units (trace (snd (snd (Open Apple kernel_unit255 (TunDevice_new None)
                 process_start)))))"
proof -
  define p2 where "p2 = process_start\<lparr>trace := trace process_start @ [SysSocket, SysCtlInfo (int 5)]\<rparr>"
  have busy: "\<forall>v. 1 \<le> v \<and> v < 255 \<longrightarrow> k_connect kernel_unit255 v = Fail EBUSY"
    by (simp add: kernel_unit255_def EBUSY_def)
  have sc: "scan_units kernel_unit255 (int 5) 1 p2 =
      (NoFreeUnit, p2\<lparr>errno := EBUSY, trace := trace p2 @ map (SysConnect (int 5)) [1..<255]\<rparr>)"
    using busy by (rule scan_all_busy)
  have h1: "\<not> is_open (TunDevice_new None)" by (simp add: TunDevice_new_def)
  have h2: "\<not> g_shutdown_requested process_start" by (simp add: process_start_def)
  have h3: "utun_unit (name (TunDevice_new None)) \<le> 0"
    by (simp add: TunDevice_new_def utun_unit_Nil)
  have h4: "k_socket kernel_unit255 = Ok 5" by (simp add: kernel_unit255_def kernel_sample_def)
  have h5: "k_ctl_info kernel_unit255 = Ok 1" by (simp add: kernel_unit255_def kernel_sample_def)
  note o = Open_apple_scan [OF h1 h2 h3 h4 h5 sc [unfolded p2_def]]
  have free: "k_connect kernel_unit255 255 = Ok ()" by (simp add: kernel_unit255_def)
  have tr0: "trace process_start = []" by (simp add: process_start_def)
  show ?thesis
    by (simp add: o free connect_units_dtor connect_units_append connect_units_map tr0)
qed

theorem C5_scan_units_1_to_254_witness:
  "fst (Open Apple kernel_sample (TunDevice_new None) process_start) = Inr True \<and>
   connect_units (trace (snd (snd (Open Apple kernel_sample (TunDevice_new None) process_start)))) =
     [1, 2, 3] \<and>
   fst (Open Apple kernel_unit255 (TunDevice_new None) process_start) =
     Inl (Error ''Could not find an available utun device'') \<and>
   length (connect_units (trace (snd (snd (Open Apple kernel_unit255 (TunDevice_new None)
      process_start))))) = 254 \<and>
   fst (Open Apple (kernel_sample\<lparr>k_connect := (\<lambda>u. if u < 2 then Fail 16 else Fail 1)\<rparr>)
          (TunDevice_new None) process_start) =
     Inl (Error ''Failed to connect to utun control socket: Unknown error'')"
proof -
  have h1: "\<not> is_open (TunDevice_new None)" by (simp add: TunDevice_new_def)
  have h2: "\<not> g_shutdown_requested process_start" by (simp add: process_start_def)
  have h3: "utun_unit (name (TunDevice_new None)) \<le> 0"
    by (simp add: TunDevice_new_def utun_unit_Nil)
  have tr0: "trace process_start = []" by (simp add: process_start_def)
  have a: "k_socket kernel_sample = Ok 5" "k_ctl_info kernel_sample = Ok 1"
    by (simp_all add: kernel_sample_def)
  have b: "k_socket kernel_unit255 = Ok 5" "k_ctl_info kernel_unit255 = Ok 1"
    by (simp_all add: kernel_unit255_def kernel_sample_def)
  define k3 where "k3 = kernel_sample\<lparr>k_connect := (\<lambda>u. if u < 2 then Fail 16 else Fail 1)\<rparr>"
  have c: "k_socket k3 = Ok 5" "k_ctl_info k3 = Ok 1"
    by (simp_all add: k3_def kernel_sample_def)
  have u3: "[Suc 0..<4] = [Suc 0, 2, 3]" by (simp add: upt_rec)
  let ?o1 = "Open Apple kernel_sample (TunDevice_new None) process_start"
  let ?o2 = "Open Apple kernel_unit255 (TunDevice_new None) process_start"
  let ?o3 = "Open Apple k3 (TunDevice_new None) process_start"
  have r1: "connect_units (trace (snd (snd ?o1))) = connect_units (trace process_start) @ [1..<Suc 3] \<and>
        (\<forall>nm fl. k_ifname kernel_sample 3 = Ok nm \<and> k_getfl kernel_sample = Ok fl \<and>
                 k_setfl kernel_sample (fl OR O_NONBLOCK Apple) = Ok () \<longrightarrow>
           fst ?o1 = Inr True \<and>
           fst (snd ?o1) = (TunDevice_new None)\<lparr>name := c_str nm, fd := int 5, is_open := True\<rparr>)"
    by (rule C5_scan_units_1_to_254 [OF h1 h2 h3 a, THEN conjunct2, THEN conjunct2, rule_format, of 3])
       (simp add: kernel_sample_def EBUSY_def)
  have r1a: "connect_units (trace (snd (snd ?o1))) = [1, 2, 3]"
    using r1 by (simp add: tr0 u3)
  have r1b: "fst ?o1 = Inr True"
    using r1 [THEN conjunct2, rule_format, of "''utun2''" 2] by (simp add: kernel_sample_def)
  have r2: "fst ?o2 = Inl (Error ''Could not find an available utun device'') \<and>
        connect_units (trace (snd (snd ?o2))) = connect_units (trace process_start) @ [1..<255]"
    by (rule C5_scan_units_1_to_254 [OF h1 h2 h3 b, THEN conjunct1, rule_format])
       (simp add: kernel_unit255_def EBUSY_def)
  have r2b: "length (connect_units (trace (snd (snd ?o2)))) = 254"
    using r2 by (simp add: tr0)
  have r3: "fst ?o3 = Inl (Error (''Failed to connect to utun control socket: '' @ strerror k3 1)) \<and>
        connect_units (trace (snd (snd ?o3))) = connect_units (trace process_start) @ [1..<Suc 2]"
    by (rule C5_scan_units_1_to_254 [OF h1 h2 h3 c, THEN conjunct2, THEN conjunct1, rule_format, of 2 1])
       (simp add: k3_def EBUSY_def)
  have r3a: "fst ?o3 = Inl (Error ''Failed to connect to utun control socket: Unknown error'')"
    using r3 by (simp add: k3_def kernel_sample_def strerror_sample_def)
  show ?thesis
    using r1a r1b r2 r2b r3a unfolding k3_def by simp
qed

section \<open>The device registry\<close>

lemma run_at_Nil [simp]: "run_at pf [] s = s"
  by (simp add: run_at_def)

lemma run_at_Cons [simp]: "run_at pf (c # cs) s = run_at pf cs (exec_at pf c s)"
  by (simp add: run_at_def)

lemma exec_at_registry:
  "g_active_devices (snd (exec_at pf c (ds, p))) = g_active_devices p"
proof (cases c)
  case (Pair this cl)
  show ?thesis
  proof (cases "ds this")
    case None
    with Pair show ?thesis by simp
  next
    case (Some d)
    with Pair show ?thesis
      using exec_registry [of pf cl d p] by (simp add: split_beta)
  qed
qed

lemma run_at_registry:
  "g_active_devices (snd (run_at pf cs (ds, p))) = g_active_devices p"
proof (induction cs arbitrary: ds p)
  case Nil
  then show ?case by simp
next
  case (Cons c cs)
  show ?case
    using Cons.IH [of "fst (exec_at pf c (ds, p))" "snd (exec_at pf c (ds, p))"]
      exec_at_registry [of pf c ds p]
    by simp
qed

text \<open>
  Claim C6, as amended. No call of \<open>open()\<close>, \<open>close()\<close> or any other method, on
  any device, changes the device registry: \<open>Open\<close> and \<open>CloseInternal\<close> never call
  \<open>RegisterDevice\<close> or \<open>UnregisterDevice\<close>. After any sequence of calls the
  registry is what it was before (empty, from the start of the process), whichever
  devices are open. Only \<open>RegisterDevice\<close> adds a device and only
  \<open>UnregisterDevice\<close> removes one.
\<close>

theorem C6_registry_untouched:
  "g_active_devices (snd (run_at pf cs (ds, p))) = g_active_devices p \<and>
   set (g_active_devices (RegisterDevice this p)) = insert this (set (g_active_devices p)) \<and>
   set (g_active_devices (UnregisterDevice this p)) = set (g_active_devices p) - {this}"
  by (auto simp: run_at_registry RegisterDevice_def UnregisterDevice_def)

text \<open>After a successful \<open>open()\<close> the device is open and the registry does not hold it.\<close>

theorem C6_open_device_not_registered:
  "is_open_at (fst (run_at Linux [(0, CallOpen kernel_sample)]
                  ([0 \<mapsto> TunDevice_new None], process_start))) 0 \<and>
   0 \<notin> set (g_active_devices (snd (run_at Linux [(0, CallOpen kernel_sample)]
                  ([0 \<mapsto> TunDevice_new None], process_start))))"
proof -
  have "snd (Open Linux kernel_sample (TunDevice_new None) process_start) = opened_sample Linux"
    by (simp add: opened_sample_def)
  then show ?thesis
    by (simp add: opened_sample_Linux is_open_at_def process_start_def)
qed

theorem C6_registry_untouched_witness:
  "g_active_devices (snd (run_at Linux [(0, CallOpen kernel_sample), (0, CallClose kernel_sample)]
      ([0 \<mapsto> TunDevice_new None], process_start))) = []"
  using C6_registry_untouched [of Linux "[(0, CallOpen kernel_sample), (0, CallClose kernel_sample)]"
      "[0 \<mapsto> TunDevice_new None]" process_start]
  by (simp add: process_start_def)

section \<open>Close is idempotent\<close>

text \<open>
  Claim C7. \<open>close()\<close> always returns success. On a device that is not open (closed
  before, never opened, or left closed by a failed open) it changes nothing. On an open
  device it marks the device closed, drops the poll handle and the thread-safe function
  (which are then no longer allocated or active), leaves \<open>fd_\<close> at \<open>-1\<close> and
  calls \<open>::close\<close> exactly once, on the descriptor held. A second \<open>close()\<close>
  changes nothing and succeeds. Over any sequence of one or more \<open>close()\<close> calls,
  with or without the destructor after it, \<open>::close\<close> is called exactly once on the
  descriptor of a device that was open, and not at all for a device that was not; the
  destructor alone does the same.
\<close>

theorem C7_close_idempotent:
  assumes "dev_inv d" and "\<forall>c\<in>set cs. is_close c"
  shows "fst (Close k d p) = True \<and>
         (\<not> is_open d \<longrightarrow> Close k d p = (True, d, p)) \<and>
         (\<forall>pf0 k0 d0 p0 ex. Open pf0 k0 d0 p0 = (Inl ex, d, p) \<longrightarrow> Close k d p = (True, d, p)) \<and>
         (is_open d \<longrightarrow>
            fst (snd (Close k d p)) =
              d\<lparr>is_open := False, poll_handle := None, tsfn := None, fd := - 1\<rparr> \<and>
            trace (snd (snd (Close k d p))) = trace p @ [SysClose (fd d)] \<and>
            closed_fds (trace (snd (snd (Close k d p)))) = closed_fds (trace p) @ [fd d] \<and>
            (\<forall>h. poll_handle d = Some h \<longrightarrow>
                 h \<notin> set (live_polls (snd (snd (Close k d p)))) \<and>
                 h \<notin> set (active_polls (snd (snd (Close k d p))))) \<and>
            (\<forall>t. tsfn d = Some t \<longrightarrow> t \<notin> set (live_tsfns (snd (snd (Close k d p)))))) \<and>
         Close k2 (fst (snd (Close k d p))) (snd (snd (Close k d p))) = (True, snd (Close k d p)) \<and>
         (cs \<noteq> [] \<longrightarrow>
            \<not> is_open (fst (run pf cs (d, p))) \<and>
            GetFd (fst (run pf cs (d, p))) = - 1 \<and>
            closed_fds (trace (snd (run pf cs (d, p)))) =
              closed_fds (trace p) @ (if is_open d then [fd d] else [])) \<and>
         closed_fds (trace (TunDevice_dtor k3 (fst (run pf cs (d, p))) (snd (run pf cs (d, p))))) =
           closed_fds (trace p) @ (if is_open d then [fd d] else [])"
proof (intro conjI impI allI)
  show "fst (Close k d p) = True" by (simp add: Close_def split_beta)
  show "Close k d p = (True, d, p)" if "\<not> is_open d"
    using that by (simp add: Close_def CloseInternal_closed)
  show "Close k d p = (True, d, p)" if "Open pf0 k0 d0 p0 = (Inl ex, d, p)" for pf0 k0 d0 p0 ex
  proof -
    have "\<not> is_open d" using Open_effect [OF that] by simp
    then show ?thesis by (simp add: Close_def CloseInternal_closed)
  qed
  have valid: "0 \<le> fd d" if "is_open d" using that assms(1) by (simp add: dev_inv_def)
  show "fst (snd (Close k d p)) =
      d\<lparr>is_open := False, poll_handle := None, tsfn := None, fd := - 1\<rparr>" if "is_open d"
    using that by (simp add: Close_def CloseInternal_open)
  show "trace (snd (snd (Close k d p))) = trace p @ [SysClose (fd d)]" if "is_open d"
    using that valid
    by (simp add: Close_def CloseInternal_open FileDescriptor_dtor_def sys_close_def syscall_def
        closed_fds_StopPolling)
  show "closed_fds (trace (snd (snd (Close k d p)))) = closed_fds (trace p) @ [fd d]" if "is_open d"
    using that Close_effect [OF assms(1), of k p] by simp
  have lists: "live_polls (snd (snd (Close k d p))) =
        fold removeAll (opt_list (poll_handle d)) (live_polls p) \<and>
      active_polls (snd (snd (Close k d p))) =
        fold removeAll (opt_list (poll_handle d)) (active_polls p) \<and>
      live_tsfns (snd (snd (Close k d p))) =
        fold removeAll (opt_list (tsfn d)) (live_tsfns p)" if "is_open d"
    using that
    by (simp add: Close_def CloseInternal_open FileDescriptor_dtor_def sys_close_def syscall_def
        StopPolling_process)
  show "h \<notin> set (live_polls (snd (snd (Close k d p))))"
    if "is_open d" and "poll_handle d = Some h" for h
    using lists [OF that(1)] that(2) by simp
  show "h \<notin> set (active_polls (snd (snd (Close k d p))))"
    if "is_open d" and "poll_handle d = Some h" for h
    using lists [OF that(1)] that(2) by simp
  show "t \<notin> set (live_tsfns (snd (snd (Close k d p))))"
    if "is_open d" and "tsfn d = Some t" for t
    using lists [OF that(1)] that(2) by simp
  have "\<not> is_open (fst (snd (Close k d p)))" using Close_effect [OF assms(1)] by simp
  then show "Close k2 (fst (snd (Close k d p))) (snd (snd (Close k d p))) = (True, snd (Close k d p))"
    by (simp add: Close_def [of k2] CloseInternal_closed)
  let ?s = "run pf cs (d, p)"
  have r: "dev_inv (fst ?s) \<and> is_open (fst ?s) = (is_open d \<and> cs = []) \<and>
      closed_fds (trace (snd ?s)) =
        closed_fds (trace p) @ (if is_open d \<and> cs \<noteq> [] then [fd d] else [])"
    using run_closes [OF assms, of pf p] by simp
  show "\<not> is_open (fst ?s)" if "cs \<noteq> []" using r that by simp
  show "GetFd (fst ?s) = - 1" if "cs \<noteq> []" using r that by (simp add: dev_inv_def GetFd_def)
  show "closed_fds (trace (snd ?s)) = closed_fds (trace p) @ (if is_open d then [fd d] else [])"
    if "cs \<noteq> []" using r that by simp
  have "closed_fds (trace (TunDevice_dtor k3 (fst ?s) (snd ?s))) =
      closed_fds (trace (snd ?s)) @ (if is_open (fst ?s) then [fd (fst ?s)] else [])"
    using r by (simp add: dtor_effect)
  with r show "closed_fds (trace (TunDevice_dtor k3 (fst ?s) (snd ?s))) =
      closed_fds (trace p) @ (if is_open d then [fd d] else [])"
    by (cases cs) auto
qed

theorem C7_close_idempotent_witness:
  "closed_fds (trace (snd (run Linux [CallClose kernel_sample, CallClose kernel_sample]
      (opened_sample Linux)))) = [5] \<and>
   \<not> is_open (fst (run Linux [CallClose kernel_sample, CallClose kernel_sample]
      (opened_sample Linux))) \<and>
   GetFd (fst (run Linux [CallClose kernel_sample, CallClose kernel_sample]
      (opened_sample Linux))) = - 1 \<and>
   fst (snd (Close kernel_sample (fst (opened_sample Linux)) (snd (opened_sample Linux)))) =
     \<lparr>fd = - 1, name = ''tun0'', is_open = False, poll_handle = None, tsfn = None\<rparr> \<and>
   closed_fds (trace (snd (snd (Close kernel_sample (fst (opened_sample Linux))
      (snd (opened_sample Linux)))))) = [5] \<and>
   1 \<notin> set (live_polls (snd (snd (Close kernel_sample
      (fst (run Linux [CallOpen kernel_sample, CallStartPolling kernel_sample (Some 6)]
              (TunDevice_new None, process_start)))
      (snd (run Linux [CallOpen kernel_sample, CallStartPolling kernel_sample (Some 6)]
              (TunDevice_new None, process_start))))))) \<and>
   0 \<notin> set (live_tsfns (snd (snd (Close kernel_sample
      (fst (run Linux [CallOpen kernel_sample, CallStartPolling kernel_sample (Some 6)]
              (TunDevice_new None, process_start)))
      (snd (run Linux [CallOpen kernel_sample, CallStartPolling kernel_sample (Some 6)]
              (TunDevice_new None, process_start))))))) \<and>
   closed_fds (trace (TunDevice_dtor kernel_sample
      (fst (run Linux [CallClose kernel_sample, CallClose kernel_sample] (opened_sample Linux)))
      (snd (run Linux [CallClose kernel_sample, CallClose kernel_sample] (opened_sample Linux))))) = [5] \<and>
   Close kernel_sample (TunDevice_new None) process_start = (True, TunDevice_new None, process_start) \<and>
   Close kernel_sample
     (fst (snd (Open Linux (kernel_sample\<lparr>k_getfl := Fail 9\<rparr>) (TunDevice_new None) process_start)))
     (snd (snd (Open Linux (kernel_sample\<lparr>k_getfl := Fail 9\<rparr>) (TunDevice_new None) process_start))) =
     (True, snd (Open Linux (kernel_sample\<lparr>k_getfl := Fail 9\<rparr>) (TunDevice_new None) process_start))"
proof -
  let ?o = "Open Linux (kernel_sample\<lparr>k_getfl := Fail 9\<rparr>) (TunDevice_new None) process_start"
  let ?cs = "[CallClose kernel_sample, CallClose kernel_sample]"
  let ?d = "fst (opened_sample Linux)"
  let ?p = "snd (opened_sample Linux)"
  have di: "dev_inv ?d" by (simp add: opened_sample_Linux dev_inv_def)
  have cl: "\<forall>c\<in>set ?cs. is_close c" by simp
  have op: "is_open ?d" by (simp add: opened_sample_Linux)
  have fd5: "fd ?d = 5" by (simp add: opened_sample_Linux)
  have tr: "closed_fds (trace ?p) = []" by (simp add: opened_sample_Linux process_start_def)
  have pr: "(?d, ?p) = opened_sample Linux" by simp
  note t = C7_close_idempotent [OF di cl, of kernel_sample ?p kernel_sample Linux kernel_sample]
  note one = t [THEN conjunct2, THEN conjunct2, THEN conjunct2, THEN conjunct1, THEN mp, OF op]
  let ?s = "run Linux [CallOpen kernel_sample, CallStartPolling kernel_sample (Some 6)]
              (TunDevice_new None, process_start)"
  have o: "snd (Open Linux kernel_sample (TunDevice_new None) process_start) = opened_sample Linux"
    by (simp add: opened_sample_def)
  have ki: "uv_poll_init kernel_sample = 0" "uv_poll_start kernel_sample = 0"
    "uv_errno kernel_sample = (\<lambda>e. e)"
    by (simp_all add: kernel_sample_def)
  have s: "?s =
     (\<lparr>fd = 5, name = ''tun0'', is_open = True, poll_handle = Some 1, tsfn = Some 0\<rparr>,
      process_start\<lparr>trace := [SysStat, SysOpenTun, SysTunSetIff 5 [], SysGetFl 5, SysSetFl 5 2050],
        next_id := 2, live_polls := [1], active_polls := [1], live_tsfns := [0]\<rparr>)"
    by (simp only: run_Cons run_Nil exec.simps o opened_sample_Linux)
       (simp add: StartPolling_def StopPolling_def is_valid_def ki process_start_def)
  have sdi: "dev_inv (fst ?s)" unfolding s by (simp add: dev_inv_def)
  have sop: "is_open (fst ?s)" unfolding s by simp
  have sph: "poll_handle (fst ?s) = Some 1" unfolding s by simp
  have sts: "tsfn (fst ?s) = Some 0" unfolding s by simp
  have e0: "\<forall>c\<in>set ([]::call list). is_close c" by simp
  note tp = C7_close_idempotent [OF sdi e0, of kernel_sample "snd ?s" kernel_sample Linux
      kernel_sample, THEN conjunct2, THEN conjunct2, THEN conjunct2, THEN conjunct1, THEN mp, OF sop]
  have poll_a: "1 \<notin> set (live_polls (snd (snd (Close kernel_sample (fst ?s) (snd ?s)))))"
    using tp [THEN conjunct2, THEN conjunct2, THEN conjunct2, THEN conjunct1, rule_format, OF sph]
    by simp
  have poll_b: "0 \<notin> set (live_tsfns (snd (snd (Close kernel_sample (fst ?s) (snd ?s)))))"
    using tp [THEN conjunct2, THEN conjunct2, THEN conjunct2, THEN conjunct2, rule_format, OF sts]
    by simp
  have one_a: "fst (snd (Close kernel_sample ?d ?p)) =
      \<lparr>fd = - 1, name = ''tun0'', is_open = False, poll_handle = None, tsfn = None\<rparr>"
    using one [THEN conjunct1] by (simp add: opened_sample_Linux)
  have one_b: "closed_fds (trace (snd (snd (Close kernel_sample ?d ?p)))) = [5]"
    using one [THEN conjunct2, THEN conjunct2] tr fd5 by simp
  have ne: "?cs \<noteq> []" by simp
  note seq = t [THEN conjunct2, THEN conjunct2, THEN conjunct2, THEN conjunct2, THEN conjunct2,
      THEN conjunct1, THEN mp, OF ne]
  have seq_a: "\<not> is_open (fst (run Linux ?cs (opened_sample Linux)))"
    using seq [THEN conjunct1] unfolding pr .
  have seq_b: "GetFd (fst (run Linux ?cs (opened_sample Linux))) = - 1"
    using seq [THEN conjunct2, THEN conjunct1] unfolding pr .
  have seq_c: "closed_fds (trace (snd (run Linux ?cs (opened_sample Linux)))) = [5]"
    using seq [THEN conjunct2, THEN conjunct2] op fd5 tr unfolding pr by simp
  have a: "closed_fds (trace (TunDevice_dtor kernel_sample
      (fst (run Linux ?cs (opened_sample Linux)))
      (snd (run Linux ?cs (opened_sample Linux))))) = [5]"
    using t [THEN conjunct2, THEN conjunct2, THEN conjunct2, THEN conjunct2, THEN conjunct2,
        THEN conjunct2] op fd5 tr unfolding pr by simp
  have b: "Close kernel_sample (TunDevice_new None) process_start =
      (True, TunDevice_new None, process_start)"
    using C7_close_idempotent [of "TunDevice_new None" "[]" kernel_sample process_start kernel_sample
        Linux kernel_sample]
    by (simp add: dev_inv_def TunDevice_new_def)
  have failed: "?o = (Inl (Error ''Failed to get file descriptor flags: Bad file descriptor''),
      fst (snd ?o), snd (snd ?o))"
    by (simp add: failed_open_sample)
  have inv: "dev_inv (fst (snd ?o))"
    using Open_dev_inv [OF dev_inv_new] by simp
  have c: "Close kernel_sample (fst (snd ?o)) (snd (snd ?o)) = (True, fst (snd ?o), snd (snd ?o))"
    using C7_close_idempotent [of "fst (snd ?o)" "[]" kernel_sample "snd (snd ?o)" kernel_sample
        Linux kernel_sample, THEN conjunct2, THEN conjunct2, THEN conjunct1, rule_format, OF inv _ failed]
    by simp
  show ?thesis using seq_a seq_b seq_c one_a one_b poll_a poll_b a b c by simp
qed

section \<open>Polling\<close>

lemma res_inv_start: "res_inv (TunDevice_new arg) process_start"
  by (simp add: res_inv_def TunDevice_new_def process_start_def)

lemma StopPolling_twice:
  "StopPolling (fst (StopPolling d p)) (snd (StopPolling d p)) = StopPolling d p"
  by (simp add: StopPolling_def split: option.splits)

lemma StartPolling_after_stop:
  assumes "is_open d" and "is_valid (fd d)"
  shows "StartPolling k (Some f) (fst (StopPolling d p)) (snd (StopPolling d p)) =
         StartPolling k (Some f) d p"
proof -
  have "is_open (fst (StopPolling d p)) = is_open d" "fd (fst (StopPolling d p)) = fd d"
    by (simp_all add: StopPolling_device)
  with assms show ?thesis
    by (simp add: StartPolling_def StopPolling_twice)
qed

text \<open>
  Claim C8. In a process with one device, in any state the device can reach from its
  construction: a \<open>start_polling\<close> that succeeds leaves the device with exactly one
  poll handle and exactly one thread-safe function, both new, and these are the only
  ones allocated and the only ones active; everything acquired by earlier calls is
  released. The call is the same as \<open>StopPolling\<close> followed by the call, and after
  that \<open>StopPolling\<close> nothing is allocated: the previous registration is stopped and
  released before the new one is created.
\<close>

theorem C8_one_registration:
  assumes "run pf cs (TunDevice_new arg, process_start) = (d, p)"
    and "StartPolling k cb d p = (Inr u, d1, p1)"
  shows "poll_handle d1 = Some (Suc (next_id p)) \<and> tsfn d1 = Some (next_id p) \<and>
         live_polls p1 = [Suc (next_id p)] \<and> active_polls p1 = [Suc (next_id p)] \<and>
         live_tsfns p1 = [next_id p] \<and>
         Suc (next_id p) \<notin> set (live_polls p) \<and> next_id p \<notin> set (live_tsfns p) \<and>
         live_polls (snd (StopPolling d p)) = [] \<and> active_polls (snd (StopPolling d p)) = [] \<and>
         live_tsfns (snd (StopPolling d p)) = [] \<and>
         StartPolling k cb d p = StartPolling k cb (fst (StopPolling d p)) (snd (StopPolling d p))"
proof -
  have inv: "dev_inv d \<and> res_inv d p"
    using run_inv [OF dev_inv_new res_inv_start, of pf cs arg] assms(1) by simp
  have "\<not> (\<not> is_open d \<or> \<not> is_valid (fd d) \<or> cb = None)"
  proof
    assume "\<not> is_open d \<or> \<not> is_valid (fd d) \<or> cb = None"
    then have "isl (fst (StartPolling k cb d p))" by (rule StartPolling_not_started [THEN conjunct2])
    with assms(2) show False by simp
  qed
  then have op: "is_open d \<and> is_valid (fd d)" and "cb \<noteq> None" by simp_all
  then obtain f where cb: "cb = Some f" by auto
  have st: "uv_poll_init k = 0 \<and> uv_poll_start k = 0 \<and>
      d1 = d\<lparr>poll_handle := Some (Suc (next_id p)), tsfn := Some (next_id p)\<rparr> \<and>
      p1 = p\<lparr>active_polls := [Suc (next_id p)], live_polls := [Suc (next_id p)],
           live_tsfns := [next_id p], next_id := Suc (Suc (next_id p)),
           errno := uv_errno k (errno p)\<rparr>"
    using assms(2) op inv unfolding cb
    by (simp add: StartPolling_started split: if_splits)
  have fresh: "Suc (next_id p) \<notin> set (live_polls p) \<and> next_id p \<notin> set (live_tsfns p)"
    using inv by (cases "poll_handle d"; cases "tsfn d") (auto simp: res_inv_def)
  have stop: "snd (StopPolling d p) = p\<lparr>active_polls := [], live_polls := [], live_tsfns := []\<rparr>"
    using inv by (simp add: StopPolling_res_inv)
  have again: "StartPolling k cb d p =
      StartPolling k cb (fst (StopPolling d p)) (snd (StopPolling d p))"
    using op by (simp add: cb StartPolling_after_stop)
  show ?thesis
    using st fresh again by (simp add: stop)
qed

theorem C8_one_registration_witness:
  "poll_handle (fst (snd (StartPolling kernel_sample (Some 7)
      (fst (run Linux [CallOpen kernel_sample, CallStartPolling kernel_sample (Some 6)]
              (TunDevice_new None, process_start)))
      (snd (run Linux [CallOpen kernel_sample, CallStartPolling kernel_sample (Some 6)]
              (TunDevice_new None, process_start)))))) = Some 3 \<and>
   live_polls (snd (snd (StartPolling kernel_sample (Some 7)
      (fst (run Linux [CallOpen kernel_sample, CallStartPolling kernel_sample (Some 6)]
              (TunDevice_new None, process_start)))
      (snd (run Linux [CallOpen kernel_sample, CallStartPolling kernel_sample (Some 6)]
              (TunDevice_new None, process_start)))))) = [3] \<and>
   live_tsfns (snd (snd (StartPolling kernel_sample (Some 7)
      (fst (run Linux [CallOpen kernel_sample, CallStartPolling kernel_sample (Some 6)]
              (TunDevice_new None, process_start)))
      (snd (run Linux [CallOpen kernel_sample, CallStartPolling kernel_sample (Some 6)]
              (TunDevice_new None, process_start)))))) = [2]"
proof -
  let ?cs = "[CallOpen kernel_sample, CallStartPolling kernel_sample (Some 6)]"
  let ?s = "run Linux ?cs (TunDevice_new None, process_start)"
  have o: "snd (Open Linux kernel_sample (TunDevice_new None) process_start) = opened_sample Linux"
    by (simp add: opened_sample_def)
  have ki: "uv_poll_init kernel_sample = 0" "uv_poll_start kernel_sample = 0"
    "uv_errno kernel_sample = (\<lambda>e. e)"
    by (simp_all add: kernel_sample_def)
  have s: "?s =
     (\<lparr>fd = 5, name = ''tun0'', is_open = True, poll_handle = Some 1, tsfn = Some 0\<rparr>,
      process_start\<lparr>trace := [SysStat, SysOpenTun, SysTunSetIff 5 [], SysGetFl 5, SysSetFl 5 2050],
        next_id := 2, live_polls := [1], active_polls := [1], live_tsfns := [0]\<rparr>)"
    by (simp only: run_Cons run_Nil exec.simps o opened_sample_Linux)
       (simp add: StartPolling_def StopPolling_def is_valid_def ki process_start_def)
  let ?sp = "StartPolling kernel_sample (Some 7) (fst ?s) (snd ?s)"
  have ok: "?sp = (Inr (), fst (snd ?sp), snd (snd ?sp))"
    unfolding s
    by (simp add: StartPolling_def StopPolling_def is_valid_def ki process_start_def)
  have n: "next_id (snd ?s) = 2" unfolding s by (simp add: process_start_def)
  have eq: "?s = (fst ?s, snd ?s)" by simp
  note t = C8_one_registration [OF eq ok]
  have "poll_handle (fst (snd ?sp)) = Some 3"
    using t [THEN conjunct1] n by simp
  moreover have "live_polls (snd (snd ?sp)) = [3]"
    using t [THEN conjunct2, THEN conjunct2, THEN conjunct1] n by simp
  moreover have "live_tsfns (snd (snd ?sp)) = [2]"
    using t [THEN conjunct2, THEN conjunct2, THEN conjunct2, THEN conjunct2, THEN conjunct1] n
    by simp
  ultimately show ?thesis by simp
qed

section \<open>Name and handle\<close>

text \<open>
  Claim C9. Let the kernel name every interface it creates. In any state a device can
  reach from its construction: while the device is not open, \<open>handle()\<close> returns
  \<open>-1\<close>; while it is open, its name is not empty and \<open>handle()\<close> is at least 0;
  and after every successful \<open>open()\<close> the name is not empty and, over any further
  calls other than \<open>close()\<close>, the device stays open with the same name and
  \<open>handle()\<close> stays at least 0.
\<close>

theorem C9_name_and_handle:
  assumes "\<forall>c\<in>set cs. call_names_ok c"
    and "run pf cs (TunDevice_new arg, p0) = (d, p)"
  shows "(\<not> is_open d \<longrightarrow> GetFd d = - 1) \<and>
         (is_open d \<longrightarrow> GetName d \<noteq> [] \<and> 0 \<le> GetFd d) \<and>
         (\<forall>k b d1 p1 cs1.
            kernel_names_ok k \<and> Open pf k d p = (Inr b, d1, p1) \<and> (\<forall>c\<in>set cs1. \<not> is_close c) \<longrightarrow>
              GetName d1 \<noteq> [] \<and>
              is_open (fst (run pf cs1 (d1, p1))) \<and>
              0 \<le> GetFd (fst (run pf cs1 (d1, p1))) \<and>
              GetName (fst (run pf cs1 (d1, p1))) = GetName d1)"
proof -
  have "is_open (TunDevice_new arg) \<longrightarrow> name (TunDevice_new arg) \<noteq> []"
    by (simp add: TunDevice_new_def)
  then have inv: "dev_inv d \<and> (is_open d \<longrightarrow> name d \<noteq> [])"
    using run_name_inv [OF dev_inv_new _ assms(1), of arg pf p0] assms(2) by simp
  have a: "\<not> is_open d \<longrightarrow> GetFd d = - 1"
    using inv by (simp add: dev_inv_def GetFd_def)
  have b: "is_open d \<longrightarrow> GetName d \<noteq> [] \<and> 0 \<le> GetFd d"
    using inv by (simp add: dev_inv_def GetFd_def GetName_def)
  have c: "GetName d1 \<noteq> [] \<and>
           is_open (fst (run pf cs1 (d1, p1))) \<and>
           0 \<le> GetFd (fst (run pf cs1 (d1, p1))) \<and>
           GetName (fst (run pf cs1 (d1, p1))) = GetName d1"
    if h: "kernel_names_ok k \<and> Open pf k d p = (Inr b, d1, p1) \<and> (\<forall>c\<in>set cs1. \<not> is_close c)"
    for k b d1 p1 cs1
  proof -
    have eff: "is_open d1 \<and> (if is_open d then d1 = d else 0 \<le> fd d1)"
      using Open_effect [of pf k d p "Inr b" d1 p1] h by simp
    have nm: "name d1 \<noteq> []"
    proof (cases "is_open d")
      case True
      with eff inv show ?thesis by simp
    next
      case False
      with h show ?thesis using Open_name [of pf k d p b d1 p1] by simp
    qed
    have fd1: "0 \<le> fd d1"
      using eff inv by (cases "is_open d") (simp_all add: dev_inv_def)
    have keep: "is_open (fst (run pf cs1 (d1, p1))) \<and> fd (fst (run pf cs1 (d1, p1))) = fd d1 \<and>
         name (fst (run pf cs1 (d1, p1))) = name d1"
      using run_keeps_open [of d1 cs1 pf p1] eff h by simp
    show ?thesis using nm fd1 keep by (simp add: GetFd_def GetName_def)
  qed
  show ?thesis using a b c by blast
qed

theorem C9_name_and_handle_witness:
  "GetFd (TunDevice_new None) = - 1 \<and>
   GetName (fst (snd (Open Linux kernel_sample (TunDevice_new None) process_start))) \<noteq> [] \<and>
   0 \<le> GetFd (fst (run Linux [CallRead kernel_sample None, CallGetFd]
            (snd (Open Linux kernel_sample (TunDevice_new None) process_start)))) \<and>
   GetFd (fst (run Linux [CallOpen kernel_sample, CallClose kernel_sample]
            (TunDevice_new None, process_start))) = - 1"
proof -
  have nk: "kernel_names_ok kernel_sample"
    by (simp add: kernel_names_ok_def kernel_sample_def c_str_def)
  let ?o = "Open Linux kernel_sample (TunDevice_new None) process_start"
  have o: "snd ?o = opened_sample Linux" by (simp add: opened_sample_def)
  have ok: "?o = (Inr True, fst (snd ?o), snd (snd ?o))"
    by (simp add: Open_def Open_linux_def Open_finish_def sys_defs
      kernel_sample_def TunDevice_new_def process_start_def c_str_def IFNAMSIZ_def)
  have e: "run Linux [] (TunDevice_new None, process_start) = (TunDevice_new None, process_start)"
    by simp
  note t = C9_name_and_handle [of "[]" Linux None process_start, OF _ e]
  have t1: "GetFd (TunDevice_new None) = - 1"
    using t [THEN conjunct1] by (simp add: TunDevice_new_def)
  have t3: "GetName (fst (snd ?o)) \<noteq> [] \<and>
      0 \<le> GetFd (fst (run Linux [CallRead kernel_sample None, CallGetFd] (fst (snd ?o), snd (snd ?o))))"
    using t [THEN conjunct2, THEN conjunct2, rule_format,
        of kernel_sample True "fst (snd ?o)" "snd (snd ?o)" "[CallRead kernel_sample None, CallGetFd]"]
      nk ok by simp
  let ?cs = "[CallOpen kernel_sample, CallClose kernel_sample]"
  let ?s = "run Linux ?cs (TunDevice_new None, process_start)"
  have closed: "\<not> is_open (fst ?s)"
    by (simp only: run_Cons run_Nil exec.simps o opened_sample_Linux)
       (simp add: Close_def CloseInternal_def StopPolling_def FileDescriptor_reset_def)
  have e2: "?s = (fst ?s, snd ?s)" by simp
  have t4: "GetFd (fst ?s) = - 1"
    using C9_name_and_handle [of ?cs Linux None process_start, OF _ e2, THEN conjunct1] nk closed
    by simp
  show ?thesis using t1 t3 t4 by simp
qed

section \<open>Failed opens\<close>

text \<open>Where a failed Open leaves the name: as it was, unless the failure is in the
  non-blocking step.\<close>

lemma Open_failure_name:
  assumes "Open pf k d p = (Inl ex, d1, p1)"
  shows "name d1 = name d \<or>
         (\<exists>e. ex = Error (''Failed to get file descriptor flags: '' @ strerror k e) \<or>
              ex = Error (''Failed to set non-blocking mode: '' @ strerror k e))"
proof (cases "is_open d \<or> g_shutdown_requested p")
  case True
  with assms show ?thesis by (auto simp: Open_def split: if_splits)
next
  case False
  obtain a d2 p2 where
    pl: "(case pf of Apple \<Rightarrow> Open_apple k d p | Linux \<Rightarrow> Open_linux k d p) = (a, d2, p2)"
    by (cases "case pf of Apple \<Rightarrow> Open_apple k d p | Linux \<Rightarrow> Open_linux k d p")
  show ?thesis
  proof (cases a)
    case (Inl ex1)
    then have "d2 = d" using platform_Inl pl by blast
    with Inl False pl assms show ?thesis by (simp add: Open_not_open)
  next
    case (Inr t)
    then have fin: "Open_finish pf k t d2 p2 = (Inl ex, d1, p1)"
      using False pl assms by (simp add: Open_not_open)
    then show ?thesis
      by (auto simp: Open_finish_def sys_defs split: sysres.splits)
  qed
qed

text \<open>
  Claim C1, at an input where it fails. On Linux, a device constructed without a name is
  opened; the kernel creates \<open>tun0\<close> and then \<open>fcntl(F_GETFL)\<close> fails. The
  open throws, the device is not open, holds no descriptor, and the temporary descriptor
  was closed; but \<open>name()\<close>, empty before the call, is \<open>tun0\<close> after it.
\<close>

theorem C1_failed_open_changes_name:
  "fst (Open Linux (kernel_sample\<lparr>k_getfl := Fail 9\<rparr>) (TunDevice_new None) process_start) =
     Inl (Error ''Failed to get file descriptor flags: Bad file descriptor'') \<and>
   \<not> is_open (fst (snd (Open Linux (kernel_sample\<lparr>k_getfl := Fail 9\<rparr>) (TunDevice_new None)
                process_start))) \<and>
   GetFd (fst (snd (Open Linux (kernel_sample\<lparr>k_getfl := Fail 9\<rparr>) (TunDevice_new None)
                process_start))) = - 1 \<and>
   closed_fds (trace (snd (snd (Open Linux (kernel_sample\<lparr>k_getfl := Fail 9\<rparr>)
                (TunDevice_new None) process_start)))) = [5] \<and>
   GetName (TunDevice_new None) = [] \<and>
   GetName (fst (snd (Open Linux (kernel_sample\<lparr>k_getfl := Fail 9\<rparr>) (TunDevice_new None)
                process_start))) = ''tun0''"
  by (simp only: failed_open_sample)
     (simp add: GetFd_def GetName_def TunDevice_new_def process_start_def)

theorem C1_failed_open_changes_name_witness:
  "GetName (fst (snd (Open Linux (kernel_sample\<lparr>k_getfl := Fail 9\<rparr>) (TunDevice_new None)
                process_start))) \<noteq> GetName (TunDevice_new None)"
  using C1_failed_open_changes_name by simp

section \<open>Reads on macOS\<close>

text \<open>
  Claim C3, at an input where it fails. On macOS, the device opened on the sample kernel
  (where \<open>errno\<close> still holds \<open>EBUSY\<close> from the scan of units) reads, and the
  \<open>read\<close> system call returns 0 bytes. The result is not a buffer of length zero:
  \<open>read()\<close> throws a read error, with the message of the stale \<open>errno\<close>.
\<close>

theorem C3_read_apple_zero_bytes_throws:
  "fst (Read Apple (kernel_sample\<lparr>k_read := (\<lambda>n. Ok [])\<rparr>) None (fst (opened_sample Apple))
          (snd (opened_sample Apple))) = Inl (Error ''Read error: Resource busy'')"
  by (simp add: opened_sample_Apple Read_def Read_apple_def sys_read_def syscall_def
      bytes_read_def buffer_after_def is_valid_def throw_errno_def buffer_size_of_def
      kernel_sample_def process_start_def strerror_sample_def)

theorem C3_read_apple_zero_bytes_throws_witness:
  "isl (fst (Read Apple (kernel_sample\<lparr>k_read := (\<lambda>n. Ok [])\<rparr>) None (fst (opened_sample Apple))
          (snd (opened_sample Apple))))"
  using C3_read_apple_zero_bytes_throws by simp

lemma drop_buffer_after:
  "length bs \<le> count \<Longrightarrow>
   take (length bs - 4) (drop 4 (buffer_after count (Ok bs))) = drop 4 bs"
  by (simp add: buffer_after_def)

lemma Read_apple_result:
  "Read_apple k n d p =
     ((case k_read k (n + 4) of
         Ok bs \<Rightarrow>
           if take (n + 4) bs = [] then
             (if errno p = EAGAIN Apple then Inr []
              else Inl (Error (''Read error: '' @ strerror k (errno p))))
           else Inr (drop 4 (take (n + 4) bs))
       | Fail e \<Rightarrow>
           if e = EAGAIN Apple then Inr [] else Inl (Error (''Read error: '' @ strerror k e))),
      snd (syscall (SysRead (fd d) (n + 4)) (k_read k (n + 4)) p))"
proof (cases "k_read k (n + 4)")
  case (Fail e)
  then show ?thesis
    by (simp add: Read_apple_def sys_read_def bytes_read_def sys_defs)
next
  case (Ok bs)
  define cs where "cs = take (n + 4) bs"
  have len: "length cs \<le> n + 4" by (simp add: cs_def)
  have strip: "take (nat (int (length cs) - 4)) (drop 4 (buffer_after (n + 4) (Ok cs))) = drop 4 cs"
    using drop_buffer_after [OF len] by (simp add: nat_diff_distrib')
  show ?thesis
    using Ok strip
    by (simp add: Read_apple_def sys_read_def bytes_read_def sys_defs Let_def cs_def [symmetric])
qed

text \<open>What the parts of claim C3 that hold say: reads of more than four bytes, of one to
  four bytes, and failed reads.\<close>

lemma Read_apple_framing:
  assumes "is_open d" and "dev_inv d" and "\<not> g_shutdown_requested p"
  shows "(\<forall>bs. k_read k (buffer_size_of arg + 4) = Ok bs \<and> 4 < length bs \<and>
              length bs \<le> buffer_size_of arg + 4 \<longrightarrow>
            fst (Read Apple k arg d p) = Inr (drop 4 bs)) \<and>
         (\<forall>bs. k_read k (buffer_size_of arg + 4) = Ok bs \<and> 0 < length bs \<and> length bs \<le> 4 \<longrightarrow>
            fst (Read Apple k arg d p) = Inr []) \<and>
         (k_read k (buffer_size_of arg + 4) = Fail (EAGAIN Apple) \<longrightarrow>
            fst (Read Apple k arg d p) = Inr []) \<and>
         (\<forall>e. k_read k (buffer_size_of arg + 4) = Fail e \<and> e \<noteq> EAGAIN Apple \<longrightarrow>
            fst (Read Apple k arg d p) = Inl (Error (''Read error: '' @ strerror k e)))"
  using assms by (auto simp: Read_open Read_apple_result)

lemma PollCallback_apple_delivery:
  assumes "0 \<le> status" and "events AND UV_READABLE \<noteq> 0" and "is_open d" and "is_valid (fd d)"
    and "k_read k 4096 = Ok bs" and "length bs \<le> 4096"
  shows "trace (PollCallback Apple k status events d p) =
           trace p @ [SysRead (fd d) 4096] @
             (if 4 < length bs then [BlockingCall (tsfn d) (drop 4 bs)]
              else if bs = [] \<and> errno p \<noteq> EAGAIN Apple then
                [Stderr (''tuntap read error: '' @ strerror k (errno p) @ [CHR 0x0A])]
              else [])"
proof -
  have strip: "take (nat (int (length bs) - 4)) (drop 4 (buffer_after 4096 (Ok bs))) = drop 4 bs"
    using drop_buffer_after [OF assms(6)] by (simp add: nat_diff_distrib')
  show ?thesis
    using assms strip
    by (simp add: PollCallback_def sys_read_def bytes_read_def syscall_def log_stderr_def Let_def)
qed

end
